theory Spec2Isabelle
  imports Complex_Main
begin

section \<open>Legacy colour quantisation (Renderer/RenderItem.hpp)\<close>

text \<open>
  The C++ being modelled:
  \<^verbatim>\<open>
  inline float color_modulo(float x)
  {
      const float m = 256.0f / 255.0f;
      return std::fmod(std::fmod(x, m) + m, m);
  }

  inline float color_modulo(double x)
  {
      return color_modulo(static_cast<float>(x));
  }
  \<close>
  The arithmetic is that of IEEE 754 binary32 (24 bits of significand, exponents from
  -126 to 127, subnormal numbers, round to nearest with ties to even). A value of type
  \<open>float\<close> or \<open>double\<close> is a finite number, an infinity or NaN; the two zeros are not
  told apart. Every operation computes the exact real result and rounds it once.
\<close>

subsection \<open>Values and rounding\<close>

datatype fval = Finite real | PlusInfinity | MinusInfinity | NaN

definition round_half_even :: "real \<Rightarrow> int" where
  \<comment> \<open>the nearest integer; of two equally near ones, the even one\<close>
  "round_half_even q =
     (let f = \<lfloor>q\<rfloor>; d = q - of_int f
      in if d < 1 / 2 then f else if 1 / 2 < d then f + 1 else if even f then f else f + 1)"

fun exponent_up :: "nat \<Rightarrow> real \<Rightarrow> int" where
  \<comment> \<open>for \<open>1 \<le> a\<close>: the \<open>e\<close> with \<open>2^e \<le> a < 2^(e+1)\<close>, found in at most \<open>n\<close>
      halvings\<close>
  "exponent_up 0 a = 0"
| "exponent_up (Suc n) a = (if a < 2 then 0 else 1 + exponent_up n (a / 2))"

fun exponent_down :: "nat \<Rightarrow> real \<Rightarrow> int" where
  \<comment> \<open>for \<open>a < 1\<close>: the \<open>e\<close> with \<open>2^e \<le> a < 2^(e+1)\<close>, found in at most \<open>n\<close>
      doublings; \<open>- n\<close> when \<open>a\<close> is smaller than that\<close>
  "exponent_down 0 a = 0"
| "exponent_down (Suc n) a = (if 1 \<le> a then 0 else exponent_down n (2 * a) - 1)"

definition binary32_exponent :: "real \<Rightarrow> int" where
  \<comment> \<open>the exponent of the binade of \<open>a\<close>, not below -126 (subnormal numbers share the
      exponent -126)\<close>
  "binary32_exponent a =
     (if 1 \<le> \<bar>a\<bar> then exponent_up 127 \<bar>a\<bar> else exponent_down 126 \<bar>a\<bar>)"

definition round_to :: "real \<Rightarrow> real \<Rightarrow> real" where
  \<comment> \<open>the multiple of \<open>u\<close> nearest to \<open>a\<close>\<close>
  "round_to u a = of_int (round_half_even (a / u)) * u"

definition to_binary32 :: "real \<Rightarrow> fval" where
  \<comment> \<open>Rounding of an exact result to binary32. The unit in the last place of the binade
      with exponent \<open>e\<close> is \<open>2^(e - 23)\<close>. A magnitude of at least \<open>(2 - 2^-24) * 2^127\<close>
      rounds to \<open>2^128\<close>, which is out of range: the result is an infinity.\<close>
  "to_binary32 a =
     (if (2 - 1 / 2 ^ 24) * 2 ^ 127 \<le> \<bar>a\<bar> then (if 0 < a then PlusInfinity else MinusInfinity)
      else Finite (round_to (2 powi (binary32_exponent a - 23)) a))"

subsection \<open>The operations the function uses\<close>

definition trunc_toward_zero :: "real \<Rightarrow> int" where
  \<comment> \<open>the integer part of a quotient, as C's \<open>fmod\<close> takes it\<close>
  "trunc_toward_zero r = (if 0 \<le> r then \<lfloor>r\<rfloor> else \<lceil>r\<rceil>)"

definition trunc_rem :: "real \<Rightarrow> real \<Rightarrow> real" where
  \<comment> \<open>\<open>x - n * y\<close> with \<open>n\<close> the quotient truncated toward zero: the result has the sign
      of \<open>x\<close> and a magnitude below that of \<open>y\<close>\<close>
  "trunc_rem x y = x - of_int (trunc_toward_zero (x / y)) * y"

fun fmod :: "fval \<Rightarrow> fval \<Rightarrow> fval" where
  \<comment> \<open>\<open>std::fmod\<close> of the C library. Its result is exact (the remainder of two binary32
      numbers is a binary32 number), so nothing is rounded. NaN for a NaN argument, an
      infinite \<open>x\<close> or a zero \<open>y\<close>; \<open>x\<close> itself for a finite \<open>x\<close> and an infinite \<open>y\<close>.\<close>
  "fmod (Finite x) (Finite y) = (if y = 0 then NaN else Finite (trunc_rem x y))"
| "fmod (Finite x) PlusInfinity = Finite x"
| "fmod (Finite x) MinusInfinity = Finite x"
| "fmod _ _ = NaN"

fun fadd :: "fval \<Rightarrow> fval \<Rightarrow> fval" where
  \<comment> \<open>\<open>+\<close> on \<open>float\<close>: the exact sum, rounded\<close>
  "fadd (Finite x) (Finite y) = to_binary32 (x + y)"
| "fadd NaN _ = NaN"
| "fadd _ NaN = NaN"
| "fadd PlusInfinity MinusInfinity = NaN"
| "fadd MinusInfinity PlusInfinity = NaN"
| "fadd PlusInfinity _ = PlusInfinity"
| "fadd MinusInfinity _ = MinusInfinity"
| "fadd _ PlusInfinity = PlusInfinity"
| "fadd _ MinusInfinity = MinusInfinity"

fun static_cast_float :: "fval \<Rightarrow> fval" where
  \<comment> \<open>\<open>static_cast<float>\<close> of a \<open>double\<close>: the value rounded to binary32; a magnitude
      beyond the range of \<open>float\<close> becomes an infinity\<close>
  "static_cast_float (Finite x) = to_binary32 x"
| "static_cast_float v = v"

subsection \<open>The function\<close>

text \<open>
  The literals \<open>256.0f\<close> and \<open>255.0f\<close> are binary32 numbers; their quotient is rounded
  once. The argument of the overload for \<open>float\<close> is a binary32 value; the definition
  takes any real for the finite case, the finite binary32 values being among them.
\<close>

definition color_modulo :: "fval \<Rightarrow> fval" where
  "color_modulo x =
     (let m = to_binary32 (256 / 255)
      in fmod (fadd (fmod x m) m) m)"

definition color_modulo_double :: "fval \<Rightarrow> fval" where
  "color_modulo_double x = color_modulo (static_cast_float x)"

definition m32 :: real where
  \<comment> \<open>the value of the constant \<open>m\<close>: \<open>256/255\<close> rounded to binary32, which is
      \<open>1 + 2^-8 + 2^-16 + 2^-23\<close>\<close>
  "m32 = 8421505 / 8388608"

definition rounded_sum :: "real \<Rightarrow> bool" where
  \<comment> \<open>what the sum \<open>fmod(x, m) + m\<close> can be after rounding: a number between 0 and
      \<open>2 * m32\<close>, on the grid of its binade from 1 upwards\<close>
  "rounded_sum s =
     ((0 \<le> s \<and> s \<le> 1) \<or>
      (1 \<le> s \<and> s \<le> 2 \<and> (\<exists>n::int. s = of_int n / 2 ^ 23)) \<or>
      (2 \<le> s \<and> s \<le> 2 * m32 \<and> (\<exists>n::int. s = of_int n / 2 ^ 22)))"

subsection \<open>The reference definition, in the specification's words\<close>

definition euclid_mod :: "real \<Rightarrow> real \<Rightarrow> real" where
  \<comment> \<open>the Euclidean modulus: the remainder that is never negative\<close>
  "euclid_mod x y = x - \<bar>y\<bar> * of_int \<lfloor>x / \<bar>y\<bar>\<rfloor>"

definition quantize :: "real \<Rightarrow> real" where
  \<comment> \<open>"let m = 256/255. quantize(x) = ((x mod m) + m) mod m"\<close>
  "quantize x = (let m = 256 / 255 in euclid_mod (euclid_mod x m + m) m)"

definition quantize_period :: "real \<Rightarrow> real \<Rightarrow> real" where
  \<comment> \<open>the same formula with the period as a parameter\<close>
  "quantize_period m x = euclid_mod (euclid_mod x m + m) m"

section \<open>The render item base class (Renderer/RenderItem.hpp)\<close>

text \<open>
  \<^verbatim>\<open>
  class RenderItem
  {
  public:
      virtual ~RenderItem() = default;
      virtual void InitVertexAttrib() = 0;
      virtual void Init() {}
  };
  \<close>
  A render item acts on a state \<open>'s\<close>: everything a member function can observe or
  change, the object's own fields and the graphics context alike. A class is the table
  of its virtual functions. \<open>InitVertexAttrib\<close> is pure virtual, so every class gives
  one; \<open>Init\<close> has a body in the base class, so a class either overrides it or not.
\<close>

record 's RenderItem =
  InitVertexAttrib :: "'s \<Rightarrow> 's"
  Init_override :: "('s \<Rightarrow> 's) option"

definition RenderItem_Init :: "'s \<Rightarrow> 's" where
  \<comment> \<open>the body \<open>{}\<close> of \<open>RenderItem::Init\<close>\<close>
  "RenderItem_Init s = s"

definition Init :: "'s RenderItem \<Rightarrow> 's \<Rightarrow> 's" where
  \<comment> \<open>the virtual call \<open>item->Init()\<close>\<close>
  "Init item s = (case Init_override item of None \<Rightarrow> RenderItem_Init s | Some f \<Rightarrow> f s)"

definition plain_item :: "nat RenderItem" where
  \<comment> \<open>a class that defines \<open>InitVertexAttrib\<close> only; its state counts the vertex
      attribute pointers set up so far\<close>
  "plain_item = \<lparr>InitVertexAttrib = Suc, Init_override = None\<rparr>"

section \<open>The preset transition (Renderer/PresetTransition.cpp)\<close>

text \<open>
  \<^verbatim>\<open>
  void PresetTransition::Draw(const Preset& oldPreset,
                              const Preset& newPreset,
                              const RenderContext& context,
                              const libprojectM::Audio::FrameAudioData& audioData,
                              double currentFrameTime)
  {
      // This method is now a stub; OpenGL-specific rendering is in the backend implementation.
  }
  \<close>
  The fields are those the constructor initialises. \<open>Draw\<close> is a member function that is
  not \<open>const\<close>, so it receives the object and the rendering backend's state \<open>'gl\<close>
  (the draw calls issued so far) and returns both.
\<close>

record ('shader, 'rand) PresetTransition =
  m_transitionShader :: 'shader
  m_durationSeconds :: real
  m_transitionStartTime :: real
  m_staticRandomValues :: "'rand list"

definition PresetTransition_Draw ::
  "'preset \<Rightarrow> 'preset \<Rightarrow> 'context \<Rightarrow> 'audio \<Rightarrow> real \<Rightarrow>
   ('shader, 'rand) PresetTransition \<times> 'gl \<Rightarrow> ('shader, 'rand) PresetTransition \<times> 'gl" where
  "PresetTransition_Draw oldPreset newPreset context audioData currentFrameTime w = w"

section \<open>The per-pixel warp mesh (MilkdropPreset/PerPixelMesh.hpp)\<close>

text \<open>
  The header declares the class, its vertex structures and its fields:
  \<^verbatim>\<open>
  int m_gridSizeX{};
  int m_gridSizeY{};
  int m_viewportWidth{};
  int m_viewportHeight{};
  Renderer::Mesh m_warpMesh;
  Renderer::VertexBuffer<RadiusAngle> m_radiusAngleBuffer;
  Renderer::VertexBuffer<ZoomRotWarp> m_zoomRotWarpBuffer;
  Renderer::VertexBuffer<Renderer::Point> m_centerBuffer;
  Renderer::VertexBuffer<Renderer::Point> m_distanceBuffer;
  Renderer::VertexBuffer<Renderer::Point> m_stretchBuffer;
  std::weak_ptr<Renderer::Shader> m_perPixelMeshShader;
  std::unique_ptr<MilkdropShader> m_warpShader;
  Renderer::Sampler m_perPixelSampler{GL_CLAMP_TO_EDGE, GL_LINEAR};
  \<close>
  The record below follows these declarations. The bodies of the member functions are
  in \<open>PerPixelMesh.cpp\<close>, and the classes \<open>PresetState\<close>, \<open>PerFrameContext\<close>,
  \<open>PerPixelContext\<close>, \<open>MilkdropShader\<close>, \<open>Renderer::Sampler\<close>, \<open>Renderer::Shader\<close> and
  \<open>Renderer::VertexBuffer\<close> in files of their own; none of them is among the sources.
  Their definitions here follow the specification and say so.
\<close>

subsection \<open>Data\<close>

datatype wrap_mode = GL_CLAMP_TO_EDGE | GL_REPEAT | GL_MIRRORED_REPEAT

datatype filter_mode = GL_LINEAR | GL_NEAREST

text \<open>
  Modelled from the spec: the class \<open>Renderer::Sampler\<close> is missing. A sampler is the
  texture addressing mode and the filter that its constructor receives, in the order of
  the header's initialiser \<open>{GL_CLAMP_TO_EDGE, GL_LINEAR}\<close>.
\<close>

record Sampler =
  wrapMode :: wrap_mode
  filterMode :: filter_mode

record Point =
  pointX :: real
  pointY :: real

record RadiusAngle =
  radius :: real
  angle :: real

record ZoomRotWarp =
  zoom :: real
  zoomExp :: real
  rot :: real
  warp :: real

text \<open>
  Modelled from the spec: the class \<open>MilkdropShader\<close> is missing. A warp shader is the
  source text the preset supplies and whether it has been compiled.
\<close>

record MilkdropShader =
  shaderCode :: string
  shaderCompiled :: bool

text \<open>
  Modelled from the spec: the class \<open>Renderer::Shader\<close> is missing. A draw call runs
  either the one default warp shader of the rendering context or a custom program.
\<close>

datatype Shader = DefaultWarpShader | CustomWarpShader string

text \<open>
  Modelled from the spec: the exception of the shader subsystem is missing. A "shader
  compile error" carries the compiler's message.
\<close>

datatype ShaderException = ShaderException string

text \<open>
  A vertex buffer is the list of its elements. \<open>m_warpMesh\<close> is the resolution the grid
  topology was built for. \<open>m_perPixelMeshShader\<close> is \<open>None\<close> while the weak reference is
  empty.
\<close>

record PerPixelMesh =
  m_gridSizeX :: int
  m_gridSizeY :: int
  m_viewportWidth :: int
  m_viewportHeight :: int
  m_warpMesh :: "int \<times> int"
  m_radiusAngleBuffer :: "RadiusAngle list"
  m_zoomRotWarpBuffer :: "ZoomRotWarp list"
  m_centerBuffer :: "Point list"
  m_distanceBuffer :: "Point list"
  m_stretchBuffer :: "Point list"
  m_perPixelMeshShader :: "Shader option"
  m_warpShader :: "MilkdropShader option"
  m_perPixelSampler :: Sampler

definition PerPixelMesh_new :: PerPixelMesh where
  \<comment> \<open>the object after construction: the default member initialisers of the header\<close>
  "PerPixelMesh_new =
     \<lparr>m_gridSizeX = 0, m_gridSizeY = 0, m_viewportWidth = 0, m_viewportHeight = 0,
      m_warpMesh = (0, 0),
      m_radiusAngleBuffer = [], m_zoomRotWarpBuffer = [], m_centerBuffer = [],
      m_distanceBuffer = [], m_stretchBuffer = [],
      m_perPixelMeshShader = None, m_warpShader = None,
      m_perPixelSampler = \<lparr>wrapMode = GL_CLAMP_TO_EDGE, filterMode = GL_LINEAR\<rparr>\<rparr>"

text \<open>
  Modelled from the spec: the class \<open>PresetState\<close> is missing. Of the preset state the
  mesh reads the requested grid resolution, the viewport size, the source of the custom
  warp shader when the preset declares one, and the texture of the previous frame.
\<close>

record PresetState =
  gridX :: int
  gridY :: int
  viewportW :: int
  viewportH :: int
  customWarpShader :: "string option"
  previousFrameTexture :: nat

text \<open>
  Modelled from the spec: the classes \<open>PerFrameContext\<close> and \<open>PerPixelContext\<close> are
  missing. The per-frame context carries the uniform values of zoom, zoom exponent,
  rotation, warp, centre and stretch. The per-pixel context is the evaluator of the
  preset's per-pixel code, absent when the preset has none; it maps the per-frame values
  and a vertex's radius and angle to that vertex's values.
\<close>

record PerFrameContext =
  pf_zoomRotWarp :: ZoomRotWarp
  pf_center :: Point
  pf_stretch :: Point

type_synonym PerPixelContext = "(PerFrameContext \<Rightarrow> RadiusAngle \<Rightarrow> PerFrameContext) option"

text \<open>
  Modelled from the spec: the rendering backend is missing. What a test observes of it:
  the number of buffer allocations, the number of shaders built, the draw calls issued
  (shader, source texture, sampling state, number of vertices) and the diagnostics logged.
\<close>

record DrawCall =
  dc_shader :: Shader
  dc_texture :: nat
  dc_sampler :: Sampler
  dc_vertices :: nat

record Backend =
  allocations :: nat
  shaderBuilds :: nat
  drawCalls :: "DrawCall list"
  diagnostics :: "string list"

text \<open>
  Modelled from the spec: the shader compiler and the formula of the static polar
  coordinates are missing, and the specification gives neither. They are parameters:
  \<open>compileError\<close> is the compiler's message for a source that does not compile, and
  \<open>polar (X, Y) (W, H) i\<close> is radius and angle of vertex \<open>i\<close> of the grid \<open>X \<times> Y\<close> in
  the viewport \<open>W \<times> H\<close>.
\<close>

record Collaborators =
  compileError :: "string \<Rightarrow> string option"
  polar :: "int \<times> int \<Rightarrow> int \<times> int \<Rightarrow> nat \<Rightarrow> RadiusAngle"

subsection \<open>Operations\<close>

definition LoadWarpShader :: "PresetState \<Rightarrow> PerPixelMesh \<Rightarrow> PerPixelMesh" where
  \<comment> \<open>Modelled from the spec: the body of \<open>PerPixelMesh::LoadWarpShader\<close> is missing.
      "If the active preset specifies a custom warp shader, resolve and retain a
      reference to it; otherwise leave it unset."\<close>
  "LoadWarpShader presetState self =
     (case customWarpShader presetState of
        Some src \<Rightarrow> self\<lparr>m_warpShader := Some \<lparr>shaderCode = src, shaderCompiled = False\<rparr>\<rparr>
      | None \<Rightarrow> self)"

definition LoadTexturesAndCompile ::
  "Collaborators \<Rightarrow> MilkdropShader \<Rightarrow> ShaderException + MilkdropShader" where
  \<comment> \<open>Modelled from the spec: the compilation step of \<open>MilkdropShader\<close> is missing. It
      raises when the source does not compile.\<close>
  "LoadTexturesAndCompile ext sh =
     (case compileError ext (shaderCode sh) of
        Some message \<Rightarrow> Inl (ShaderException message)
      | None \<Rightarrow> Inr (sh\<lparr>shaderCompiled := True\<rparr>))"

definition CompileWarpShader ::
  "Collaborators \<Rightarrow> PresetState \<Rightarrow> PerPixelMesh \<times> Backend \<Rightarrow>
   ShaderException + PerPixelMesh \<times> Backend" where
  \<comment> \<open>Modelled from the spec: the body of \<open>PerPixelMesh::CompileWarpShader\<close> is missing.
      "Triggers compilation of the custom warp shader; reports failure without crashing;
      compilation failure must downgrade gracefully to the default shader path", the
      diagnostic going to the log.\<close>
  "CompileWarpShader ext presetState w =
     (case w of (self, gpu) \<Rightarrow>
        (case m_warpShader self of
           None \<Rightarrow> Inr (self, gpu)
         | Some sh \<Rightarrow>
             (case LoadTexturesAndCompile ext sh of
                Inr sh' \<Rightarrow> Inr (self\<lparr>m_warpShader := Some sh'\<rparr>, gpu)
              | Inl (ShaderException message) \<Rightarrow>
                  Inr (self\<lparr>m_warpShader := None\<rparr>,
                       gpu\<lparr>diagnostics := diagnostics gpu @ [message]\<rparr>))))"

definition InitializeMesh ::
  "Collaborators \<Rightarrow> PresetState \<Rightarrow> PerPixelMesh \<times> Backend \<Rightarrow> PerPixelMesh \<times> Backend" where
  \<comment> \<open>Modelled from the spec: the body of \<open>PerPixelMesh::InitializeMesh\<close> is missing.
      "1. Read requested grid resolution (X, Y) and current viewport size. 2. If
      resolution changed since last frame: reallocate all five GPU buffers to hold
      X \<times> Y elements, rebuild the mesh topology, and mark static values dirty. 3. If
      viewport size changed: recompute the static per-vertex radius/angle values."
      The header: "If either this happened, or the viewport size changed, the static
      values will be recalculated."\<close>
  "InitializeMesh ext presetState w =
     (case w of (self, gpu) \<Rightarrow>
        let X = gridX presetState; Y = gridY presetState;
            W = viewportW presetState; H = viewportH presetState;
            resolutionChanged = (m_gridSizeX self \<noteq> X \<or> m_gridSizeY self \<noteq> Y);
            viewportChanged = (m_viewportWidth self \<noteq> W \<or> m_viewportHeight self \<noteq> H);
            n = nat (X * Y);
            (self1, gpu1) =
              (if resolutionChanged
               then (self\<lparr>m_gridSizeX := X, m_gridSizeY := Y, m_warpMesh := (X, Y),
                          m_radiusAngleBuffer := replicate n \<lparr>radius = 0, angle = 0\<rparr>,
                          m_zoomRotWarpBuffer :=
                            replicate n \<lparr>zoom = 0, zoomExp = 0, rot = 0, warp = 0\<rparr>,
                          m_centerBuffer := replicate n \<lparr>pointX = 0, pointY = 0\<rparr>,
                          m_distanceBuffer := replicate n \<lparr>pointX = 0, pointY = 0\<rparr>,
                          m_stretchBuffer := replicate n \<lparr>pointX = 0, pointY = 0\<rparr>\<rparr>,
                     gpu\<lparr>allocations := allocations gpu + 5\<rparr>)
               else (self, gpu));
            self2 =
              (if resolutionChanged \<or> viewportChanged
               then self1\<lparr>m_viewportWidth := W, m_viewportHeight := H,
                          m_radiusAngleBuffer :=
                            map (polar ext (X, Y) (W, H))
                              [0 ..< length (m_radiusAngleBuffer self1)]\<rparr>
               else self1)
        in (self2, gpu1))"

definition write_vertex ::
  "PerFrameContext \<Rightarrow> PerPixelContext \<Rightarrow> nat \<Rightarrow> PerPixelMesh \<Rightarrow> PerPixelMesh" where
  \<comment> \<open>Modelled from the spec: one step of the loop of \<open>CalculateMesh\<close>. "Supply its
      cached radius/angle as inputs to the per-pixel evaluator together with the
      per-frame context; write the values received into the corresponding buffer slots.
      If the preset defines no per-pixel code, fall back to the per-frame values."\<close>
  "write_vertex perFrameContext perPixelContext i self =
     (let v = (case perPixelContext of
                 None \<Rightarrow> perFrameContext
               | Some eval \<Rightarrow> eval perFrameContext (m_radiusAngleBuffer self ! i))
      in self\<lparr>m_zoomRotWarpBuffer := (m_zoomRotWarpBuffer self)[i := pf_zoomRotWarp v],
              m_centerBuffer := (m_centerBuffer self)[i := pf_center v],
              m_stretchBuffer := (m_stretchBuffer self)[i := pf_stretch v]\<rparr>)"

definition CalculateMesh ::
  "PresetState \<Rightarrow> PerFrameContext \<Rightarrow> PerPixelContext \<Rightarrow> PerPixelMesh \<Rightarrow> PerPixelMesh" where
  \<comment> \<open>Modelled from the spec: the body of \<open>PerPixelMesh::CalculateMesh\<close> is missing.
      "For every grid vertex, in row-major order."\<close>
  "CalculateMesh presetState perFrameContext perPixelContext self =
     fold (write_vertex perFrameContext perPixelContext)
       [0 ..< nat (m_gridSizeX self * m_gridSizeY self)] self"

definition GetDefaultWarpShader ::
  "PerPixelMesh \<times> Backend \<Rightarrow> Shader \<times> PerPixelMesh \<times> Backend" where
  \<comment> \<open>Modelled from the spec: the body of \<open>PerPixelMesh::GetDefaultWarpShader\<close> is
      missing. "The default warp shader is built lazily on first use and reused
      thereafter."\<close>
  "GetDefaultWarpShader w =
     (case w of (self, gpu) \<Rightarrow>
        (case m_perPixelMeshShader self of
           Some shader \<Rightarrow> (shader, self, gpu)
         | None \<Rightarrow>
             (DefaultWarpShader,
              self\<lparr>m_perPixelMeshShader := Some DefaultWarpShader\<rparr>,
              gpu\<lparr>shaderBuilds := shaderBuilds gpu + 1\<rparr>)))"

definition WarpedBlit ::
  "PresetState \<Rightarrow> PerFrameContext \<Rightarrow> PerPixelMesh \<times> Backend \<Rightarrow> PerPixelMesh \<times> Backend" where
  \<comment> \<open>Modelled from the spec: the body of \<open>PerPixelMesh::WarpedBlit\<close> is missing. "Bind
      the previous-frame texture as input. If a valid custom warp shader is present,
      bind it, then issue the draw call over the full grid topology. If no custom shader
      is present or compilation failed, use a default shader." The texture is sampled
      through the member \<open>m_perPixelSampler\<close>.\<close>
  "WarpedBlit presetState perFrameContext w =
     (case w of (self, gpu) \<Rightarrow>
        let (shader, self1, gpu1) =
              (case m_warpShader self of
                 Some sh \<Rightarrow>
                   (if shaderCompiled sh then (CustomWarpShader (shaderCode sh), self, gpu)
                    else GetDefaultWarpShader (self, gpu))
               | None \<Rightarrow> GetDefaultWarpShader (self, gpu));
            call = \<lparr>dc_shader = shader,
                    dc_texture = previousFrameTexture presetState,
                    dc_sampler = m_perPixelSampler self1,
                    dc_vertices = nat (m_gridSizeX self1 * m_gridSizeY self1)\<rparr>
        in (self1, gpu1\<lparr>drawCalls := drawCalls gpu1 @ [call]\<rparr>))"

definition PerPixelMesh_Draw ::
  "Collaborators \<Rightarrow> PresetState \<Rightarrow> PerFrameContext \<Rightarrow> PerPixelContext \<Rightarrow>
   PerPixelMesh \<times> Backend \<Rightarrow> PerPixelMesh \<times> Backend" where
  \<comment> \<open>Modelled from the spec: the body of \<open>PerPixelMesh::Draw\<close> is missing. "The
      per-frame entry point; orchestrates mesh (re)initialization, per-vertex evaluation,
      and the warped draw."\<close>
  "PerPixelMesh_Draw ext presetState perFrameContext perPixelContext w =
     (case InitializeMesh ext presetState w of (self1, gpu1) \<Rightarrow>
        WarpedBlit presetState perFrameContext
          (CalculateMesh presetState perFrameContext perPixelContext self1, gpu1))"

subsection \<open>Histories of calls\<close>

text \<open>
  The public interface of the class is \<open>LoadWarpShader\<close>, \<open>CompileWarpShader\<close> and
  \<open>Draw\<close>. A history is a list of such calls; \<open>run\<close> performs them in order on an object
  and a backend, and stops at the first exception. The states an object can be in are
  those \<open>run\<close> reaches from \<open>PerPixelMesh_new\<close>.
\<close>

datatype Operation =
  OpLoadWarpShader PresetState
| OpCompileWarpShader PresetState
| OpDraw PresetState PerFrameContext PerPixelContext

fun step ::
  "Collaborators \<Rightarrow> Operation \<Rightarrow> PerPixelMesh \<times> Backend \<Rightarrow>
   ShaderException + PerPixelMesh \<times> Backend" where
  "step ext (OpLoadWarpShader ps) (self, gpu) = Inr (LoadWarpShader ps self, gpu)"
| "step ext (OpCompileWarpShader ps) (self, gpu) = CompileWarpShader ext ps (self, gpu)"
| "step ext (OpDraw ps pf pp) (self, gpu) = Inr (PerPixelMesh_Draw ext ps pf pp (self, gpu))"

fun run ::
  "Collaborators \<Rightarrow> Operation list \<Rightarrow> PerPixelMesh \<times> Backend \<Rightarrow>
   ShaderException + PerPixelMesh \<times> Backend" where
  "run ext [] w = Inr w"
| "run ext (operation # rest) w =
     (case step ext operation w of Inl e \<Rightarrow> Inl e | Inr w' \<Rightarrow> run ext rest w')"

fun Draw_frames ::
  "Collaborators \<Rightarrow> (PresetState \<times> PerFrameContext \<times> PerPixelContext) list \<Rightarrow>
   PerPixelMesh \<times> Backend \<Rightarrow> PerPixelMesh \<times> Backend" where
  "Draw_frames ext [] w = w"
| "Draw_frames ext ((ps, pf, pp) # frames) w =
     Draw_frames ext frames (PerPixelMesh_Draw ext ps pf pp w)"

subsection \<open>Predicates on the state\<close>

definition buffers_sized :: "PerPixelMesh \<Rightarrow> bool" where
  \<comment> \<open>each of the five buffers holds \<open>m_gridSizeX * m_gridSizeY\<close> elements\<close>
  "buffers_sized self =
     (int (length (m_radiusAngleBuffer self)) = m_gridSizeX self * m_gridSizeY self \<and>
      int (length (m_zoomRotWarpBuffer self)) = m_gridSizeX self * m_gridSizeY self \<and>
      int (length (m_centerBuffer self)) = m_gridSizeX self * m_gridSizeY self \<and>
      int (length (m_distanceBuffer self)) = m_gridSizeX self * m_gridSizeY self \<and>
      int (length (m_stretchBuffer self)) = m_gridSizeX self * m_gridSizeY self)"

definition valid_preset :: "PresetState \<Rightarrow> bool" where
  \<comment> \<open>the input contract of the specification: "grid resolution (two positive
      integers)"\<close>
  "valid_preset presetState = (0 < gridX presetState \<and> 0 < gridY presetState)"

fun valid_operation :: "Operation \<Rightarrow> bool" where
  "valid_operation (OpDraw ps pf pp) = valid_preset ps"
| "valid_operation _ = True"

definition shape :: "PerPixelMesh \<Rightarrow> int \<times> int \<times> nat \<times> nat \<times> nat \<times> nat \<times> nat" where
  \<comment> \<open>grid resolution and buffer sizes: what only \<open>InitializeMesh\<close> changes\<close>
  "shape self =
     (m_gridSizeX self, m_gridSizeY self,
      length (m_radiusAngleBuffer self), length (m_zoomRotWarpBuffer self),
      length (m_centerBuffer self), length (m_distanceBuffer self),
      length (m_stretchBuffer self))"

definition cache_ok :: "PerPixelMesh \<Rightarrow> bool" where
  \<comment> \<open>the weak reference is empty or refers to the default warp shader\<close>
  "cache_ok self =
     (m_perPixelMeshShader self = None \<or> m_perPixelMeshShader self = Some DefaultWarpShader)"

definition clamp_linear :: Sampler where
  "clamp_linear = \<lparr>wrapMode = GL_CLAMP_TO_EDGE, filterMode = GL_LINEAR\<rparr>"

definition mesh_ok :: "PerPixelMesh \<Rightarrow> bool" where
  "mesh_ok self = (cache_ok self \<and> m_perPixelSampler self = clamp_linear)"

subsection \<open>Example inputs\<close>

definition good_source :: string where
  "good_source = ''shader_body { ret = tex2D(sampler_main, uv) }''"

definition bad_source :: string where
  "bad_source = ''shader_body { ret = ''"

definition example_collaborators :: Collaborators where
  \<comment> \<open>a compiler that accepts \<open>good_source\<close> only, and evenly spaced radii\<close>
  "example_collaborators =
     \<lparr>compileError = (\<lambda>src. if src = good_source then None else Some ''syntax error''),
      polar = (\<lambda>(X, Y) (W, H) i. \<lparr>radius = of_nat i / of_int (X * Y), angle = 0\<rparr>)\<rparr>"

definition example_preset :: "int \<Rightarrow> string option \<Rightarrow> PresetState" where
  \<comment> \<open>a square grid in a viewport of 800 by 600\<close>
  "example_preset n shader =
     \<lparr>gridX = n, gridY = n, viewportW = 800, viewportH = 600,
      customWarpShader = shader, previousFrameTexture = 7\<rparr>"

definition identity_frame :: PerFrameContext where
  \<comment> \<open>zoom 1, no rotation, no warp\<close>
  "identity_frame =
     \<lparr>pf_zoomRotWarp = \<lparr>zoom = 1, zoomExp = 1, rot = 0, warp = 0\<rparr>,
      pf_center = \<lparr>pointX = 1 / 2, pointY = 1 / 2\<rparr>,
      pf_stretch = \<lparr>pointX = 1, pointY = 1\<rparr>\<rparr>"

definition fresh_backend :: Backend where
  "fresh_backend = \<lparr>allocations = 0, shaderBuilds = 0, drawCalls = [], diagnostics = []\<rparr>"

section \<open>Properties of the colour quantisation\<close>

subsection \<open>Rounding to a grid\<close>

lemma round_half_even_error: "\<bar>of_int (round_half_even q) - q\<bar> \<le> 1 / 2"
proof -
  have "of_int \<lfloor>q\<rfloor> \<le> q" and "q < of_int \<lfloor>q\<rfloor> + 1" by linarith+
  then show ?thesis by (auto simp add: round_half_even_def Let_def)
qed

lemma round_half_even_le:
  assumes "q \<le> of_int c"
  shows "round_half_even q \<le> c"
proof -
  have "of_int (round_half_even q) \<le> q + 1 / 2"
    using round_half_even_error [of q] by linarith
  then have "real_of_int (round_half_even q) < of_int (c + 1)" using assms by simp
  then have "round_half_even q < c + 1" by (simp only: of_int_less_iff)
  then show ?thesis by simp
qed

lemma round_half_even_ge:
  assumes "of_int c \<le> q"
  shows "c \<le> round_half_even q"
proof -
  have "q - 1 / 2 \<le> of_int (round_half_even q)"
    using round_half_even_error [of q] by linarith
  then have "real_of_int (c - 1) < of_int (round_half_even q)" using assms by simp
  then have "c - 1 < round_half_even q" by (simp only: of_int_less_iff)
  then show ?thesis by simp
qed

lemma round_half_even_tie:
  assumes "even c" and "q \<le> of_int c + 1 / 2"
  shows "round_half_even q \<le> c"
proof (cases "q = of_int c + 1 / 2")
  case True
  then have "\<lfloor>q\<rfloor> = c" by (simp add: floor_eq_iff)
  then show ?thesis using True assms(1) by (simp add: round_half_even_def Let_def)
next
  case False
  then have "q < of_int c + 1 / 2" using assms(2) by simp
  moreover have "of_int (round_half_even q) \<le> q + 1 / 2"
    using round_half_even_error [of q] by linarith
  ultimately have "real_of_int (round_half_even q) < of_int (c + 1)" by simp
  then have "round_half_even q < c + 1" by (simp only: of_int_less_iff)
  then show ?thesis by simp
qed

lemma round_to_error:
  assumes "0 < u"
  shows "\<bar>round_to u a - a\<bar> \<le> u / 2"
proof -
  have "round_to u a - a = (of_int (round_half_even (a / u)) - a / u) * u"
    using assms by (simp add: round_to_def algebra_simps)
  then have "\<bar>round_to u a - a\<bar> = \<bar>of_int (round_half_even (a / u)) - a / u\<bar> * u"
    using assms by (simp add: abs_mult)
  also have "\<dots> \<le> (1 / 2) * u"
    using round_half_even_error [of "a / u"] assms by (intro mult_right_mono) simp_all
  finally show ?thesis by simp
qed

lemma round_to_le:
  assumes "0 < u" and "a \<le> of_int c * u"
  shows "round_to u a \<le> of_int c * u"
proof -
  have "a / u \<le> of_int c" using assms by (simp add: pos_divide_le_eq)
  then have "round_half_even (a / u) \<le> c" by (rule round_half_even_le)
  then have "real_of_int (round_half_even (a / u)) \<le> of_int c" by simp
  then show ?thesis using assms(1) unfolding round_to_def by (intro mult_right_mono) simp_all
qed

lemma round_to_ge:
  assumes "0 < u" and "of_int c * u \<le> a"
  shows "of_int c * u \<le> round_to u a"
proof -
  have "of_int c \<le> a / u" using assms by (simp add: pos_le_divide_eq)
  then have "c \<le> round_half_even (a / u)" by (rule round_half_even_ge)
  then have "real_of_int c \<le> of_int (round_half_even (a / u))" by simp
  then show ?thesis using assms(1) unfolding round_to_def by (intro mult_right_mono) simp_all
qed

lemma round_to_tie:
  assumes "0 < u" and "even c" and "a \<le> (of_int c + 1 / 2) * u"
  shows "round_to u a \<le> of_int c * u"
proof -
  have "a / u \<le> of_int c + 1 / 2" using assms(1,3) by (simp add: pos_divide_le_eq)
  then have "round_half_even (a / u) \<le> c" using assms(2) by (intro round_half_even_tie)
  then have "real_of_int (round_half_even (a / u)) \<le> of_int c" by simp
  then show ?thesis using assms(1) unfolding round_to_def by (intro mult_right_mono) simp_all
qed

subsection \<open>The three binades below 4\<close>

lemma exponent_up_numeral:
  "exponent_up (numeral k) a = (if a < 2 then 0 else 1 + exponent_up (pred_numeral k) (a / 2))"
  by (simp add: numeral_eq_Suc)

lemma exponent_down_numeral:
  "exponent_down (numeral k) a =
     (if 1 \<le> a then 0 else exponent_down (pred_numeral k) (2 * a) - 1)"
  by (simp add: numeral_eq_Suc)

lemma exponent_down_bounds: "- int n \<le> exponent_down n a \<and> exponent_down n a \<le> 0"
proof (induction n arbitrary: a)
  case 0
  show ?case by simp
next
  case (Suc n)
  from Suc [of "2 * a"] show ?case by simp
qed

lemma to_binary32_2_4:
  assumes "2 \<le> a" and "a < 4"
  shows "to_binary32 a = Finite (round_to (1 / 2 ^ 22) a)"
proof -
  have "binary32_exponent a = 1"
    using assms by (simp add: binary32_exponent_def exponent_up_numeral)
  moreover have "\<not> (2 - 1 / 2 ^ 24) * 2 ^ 127 \<le> \<bar>a\<bar>" using assms by simp
  ultimately show ?thesis by (simp add: to_binary32_def power_int_minus field_simps)
qed

lemma to_binary32_1_2:
  assumes "1 \<le> a" and "a < 2"
  shows "to_binary32 a = Finite (round_to (1 / 2 ^ 23) a)"
proof -
  have "binary32_exponent a = 0"
    using assms by (simp add: binary32_exponent_def exponent_up_numeral)
  moreover have "\<not> (2 - 1 / 2 ^ 24) * 2 ^ 127 \<le> \<bar>a\<bar>" using assms by simp
  ultimately show ?thesis by (simp add: to_binary32_def power_int_minus field_simps)
qed

lemma to_binary32_0_1:
  assumes "0 \<le> a" and "a < 1"
  shows "\<exists>k. 24 \<le> k \<and> to_binary32 a = Finite (round_to (1 / 2 ^ k) a)"
proof -
  let ?e = "exponent_down 126 a"
  have e: "binary32_exponent a = ?e" using assms by (simp add: binary32_exponent_def)
  have "?e = exponent_down 125 (2 * a) - 1"
    using assms by (simp add: exponent_down_numeral)
  then have "?e \<le> - 1" using exponent_down_bounds [of 125 "2 * a"] by simp
  then have "?e - 23 = - int (nat (23 - ?e))" and "24 \<le> nat (23 - ?e)" by simp_all
  then obtain k where k: "?e - 23 = - int k" and k24: "24 \<le> k" by blast
  have "(2::real) powi (?e - 23) = 1 / 2 ^ k"
    unfolding k by (simp add: power_int_minus field_simps)
  moreover have "\<not> (2 - 1 / 2 ^ 24) * 2 ^ 127 \<le> \<bar>a\<bar>" using assms by simp
  ultimately show ?thesis using e k24 by (auto simp add: to_binary32_def)
qed

subsection \<open>Euclidean modulus and truncating remainder\<close>

lemma euclid_mod_range:
  assumes "0 < p"
  shows "0 \<le> euclid_mod x p" and "euclid_mod x p < p"
proof -
  have a: "\<bar>p\<bar> = p" using assms by simp
  have "of_int \<lfloor>x / p\<rfloor> \<le> x / p" by (rule of_int_floor_le)
  then have "of_int \<lfloor>x / p\<rfloor> * p \<le> x" using assms by (simp add: le_divide_eq)
  then show "0 \<le> euclid_mod x p" by (simp add: euclid_mod_def a mult.commute)
  have "x / p < of_int \<lfloor>x / p\<rfloor> + 1" by linarith
  then have "x < (of_int \<lfloor>x / p\<rfloor> + 1) * p" using assms by (simp only: pos_divide_less_eq)
  then show "euclid_mod x p < p" by (simp add: euclid_mod_def a algebra_simps)
qed

lemma euclid_mod_small:
  assumes "0 \<le> r" and "r < p"
  shows "euclid_mod r p = r"
proof -
  have p: "0 < p" using assms by linarith
  have "\<lfloor>r / p\<rfloor> = 0"
    using assms p by (simp add: floor_eq_iff)
  then show ?thesis using p by (simp add: euclid_mod_def)
qed

lemma euclid_mod_add_int:
  assumes "0 < p"
  shows "euclid_mod (x + of_int k * p) p = euclid_mod x p"
proof -
  have "(x + of_int k * p) / p = x / p + of_int k" using assms by (simp add: add_divide_distrib)
  then have "\<lfloor>(x + of_int k * p) / p\<rfloor> = \<lfloor>x / p\<rfloor> + k" by simp
  then show ?thesis using assms by (simp add: euclid_mod_def algebra_simps)
qed

lemma euclid_mod_shift:
  assumes "0 < p"
  shows "euclid_mod (x + p) p = euclid_mod x p"
  using euclid_mod_add_int [OF assms, of x 1] by simp

lemma euclid_mod_second_period:
  assumes "p \<le> s" and "s < 2 * p" and "0 < p"
  shows "euclid_mod s p = s - p"
proof -
  have "euclid_mod ((s - p) + p) p = euclid_mod (s - p) p" by (rule euclid_mod_shift [OF assms(3)])
  also have "\<dots> = s - p" using assms by (intro euclid_mod_small) simp_all
  finally show ?thesis by simp
qed

lemma euclid_mod_twice:
  assumes "0 < p"
  shows "euclid_mod (2 * p) p = 0"
proof -
  have "euclid_mod (0 + of_int 2 * p) p = euclid_mod 0 p" by (rule euclid_mod_add_int [OF assms])
  also have "\<dots> = 0" using assms by (intro euclid_mod_small) simp_all
  finally show ?thesis by simp
qed

lemma quantize_period_euclid:
  assumes "0 < p"
  shows "quantize_period p x = euclid_mod x p"
proof -
  have "euclid_mod (euclid_mod x p + p) p = euclid_mod (euclid_mod x p) p"
    by (rule euclid_mod_shift [OF assms])
  also have "\<dots> = euclid_mod x p"
    using euclid_mod_range [OF assms, of x] by (intro euclid_mod_small)
  finally show ?thesis by (simp add: quantize_period_def)
qed

lemma trunc_rem_nonneg:
  assumes "0 < p" and "0 \<le> x"
  shows "trunc_rem x p = euclid_mod x p"
  using assms by (simp add: trunc_rem_def trunc_toward_zero_def euclid_mod_def mult.commute)

lemma trunc_rem_neg:
  assumes "0 < p" and "x < 0"
  shows "trunc_rem x p = (if euclid_mod x p = 0 then 0 else euclid_mod x p - p)"
proof -
  have neg: "\<not> 0 \<le> x / p" using assms by (simp add: divide_less_0_iff not_le)
  have a: "\<bar>p\<bar> = p" using assms by simp
  show ?thesis
  proof (cases "x / p = of_int \<lfloor>x / p\<rfloor>")
    case True
    then have c: "\<lceil>x / p\<rceil> = \<lfloor>x / p\<rfloor>" by (simp add: ceiling_altdef)
    from True have "x = of_int \<lfloor>x / p\<rfloor> * p" using assms by (simp add: divide_eq_eq)
    then have "euclid_mod x p = 0" by (simp add: euclid_mod_def a mult.commute)
    then show ?thesis using assms neg c
      by (simp add: trunc_rem_def trunc_toward_zero_def euclid_mod_def a mult.commute)
  next
    case False
    then have c: "\<lceil>x / p\<rceil> = \<lfloor>x / p\<rfloor> + 1" by (simp add: ceiling_altdef)
    from False have "x \<noteq> of_int \<lfloor>x / p\<rfloor> * p" using assms by (simp add: divide_eq_eq)
    then have "euclid_mod x p \<noteq> 0" by (simp add: euclid_mod_def a mult.commute)
    then show ?thesis using assms neg c
      by (simp add: trunc_rem_def trunc_toward_zero_def euclid_mod_def a algebra_simps)
  qed
qed

lemma trunc_rem_bounds:
  assumes "0 < p"
  shows "- p < trunc_rem x p" and "trunc_rem x p < p"
proof -
  have r: "0 \<le> euclid_mod x p" "euclid_mod x p < p" using assms by (rule euclid_mod_range)+
  show "- p < trunc_rem x p"
    using r assms by (cases "0 \<le> x") (simp_all add: trunc_rem_nonneg trunc_rem_neg)
  show "trunc_rem x p < p"
    using r assms by (cases "0 \<le> x") (simp_all add: trunc_rem_nonneg trunc_rem_neg)
qed

subsection \<open>The rounded sum\<close>

lemma m32_rounded: "to_binary32 (256 / 255) = Finite m32"
  by (simp add: to_binary32_def binary32_exponent_def round_to_def round_half_even_def
      exponent_up_numeral m32_def)

lemma sum_rounding:
  assumes "0 < a" and "a < 2 * m32"
  shows "\<exists>s. to_binary32 a = Finite s \<and> \<bar>s - a\<bar> \<le> 1 / 2 ^ 23 \<and> rounded_sum s"
proof -
  consider "a < 1" | "1 \<le> a" "a < 2" | "2 \<le> a" by linarith
  then show ?thesis
  proof cases
    case 1
    from to_binary32_0_1 [of a] assms(1) 1 obtain k
      where k: "24 \<le> k" and s: "to_binary32 a = Finite (round_to (1 / 2 ^ k) a)" by auto
    let ?u = "1 / 2 ^ k :: real"
    have u: "0 < ?u" by simp
    have "(2::real) ^ 24 \<le> 2 ^ k" using k by (intro power_increasing) simp_all
    then have small: "?u / 2 \<le> 1 / 2 ^ 23" by (simp add: field_simps)
    have e: "\<bar>round_to ?u a - a\<bar> \<le> 1 / 2 ^ 23"
      using round_to_error [OF u, of a] small by linarith
    have "of_int 0 * ?u \<le> a" using assms(1) by simp
    from round_to_ge [OF u this] have lo: "0 \<le> round_to ?u a" by simp
    have "a \<le> of_int (2 ^ k) * ?u" using 1 by simp
    from round_to_le [OF u this] have hi: "round_to ?u a \<le> 1" by simp
    show ?thesis using s e lo hi by (simp add: rounded_sum_def)
  next
    case 2
    let ?u = "1 / 2 ^ 23 :: real"
    have u: "0 < ?u" by simp
    have s: "to_binary32 a = Finite (round_to ?u a)" using 2 by (rule to_binary32_1_2)
    have e: "\<bar>round_to ?u a - a\<bar> \<le> 1 / 2 ^ 23"
      using round_to_error [OF u, of a] by simp
    have "of_int (2 ^ 23) * ?u \<le> a" using 2 by simp
    from round_to_ge [OF u this] have lo: "1 \<le> round_to ?u a" by simp
    have "a \<le> of_int (2 ^ 24) * ?u" using 2 by simp
    from round_to_le [OF u this] have hi: "round_to ?u a \<le> 2" by simp
    have g: "\<exists>n::int. round_to ?u a = of_int n / 2 ^ 23" by (auto simp add: round_to_def)
    show ?thesis using s e lo hi g by (simp add: rounded_sum_def)
  next
    case 3
    let ?u = "1 / 2 ^ 22 :: real"
    have u: "0 < ?u" by simp
    have a4: "a < 4" using assms(2) by (simp add: m32_def)
    have s: "to_binary32 a = Finite (round_to ?u a)" using 3 a4 by (rule to_binary32_2_4)
    have e: "\<bar>round_to ?u a - a\<bar> \<le> 1 / 2 ^ 23"
      using round_to_error [OF u, of a] by simp
    have "of_int (2 ^ 23) * ?u \<le> a" using 3 by simp
    from round_to_ge [OF u this] have lo: "2 \<le> round_to ?u a" by simp
    have "a \<le> of_int 8421505 * ?u" using assms(2) by (simp add: m32_def)
    from round_to_le [OF u this] have hi: "round_to ?u a \<le> 2 * m32" by (simp add: m32_def)
    have g: "\<exists>n::int. round_to ?u a = of_int n / 2 ^ 22" by (auto simp add: round_to_def)
    show ?thesis using s e lo hi g by (simp add: rounded_sum_def)
  qed
qed

lemma sum_rounding_upper:
  assumes "m32 \<le> a" and "a \<le> 2 * m32 - 1 / 2 ^ 23"
  shows "\<exists>s. to_binary32 a = Finite s \<and> \<bar>s - a\<bar> \<le> 1 / 2 ^ 23 \<and> m32 \<le> s \<and> s < 2 * m32"
proof (cases "a < 2")
  case True
  let ?u = "1 / 2 ^ 23 :: real"
  have u: "0 < ?u" by simp
  have "1 \<le> a" using assms(1) by (simp add: m32_def)
  then have s: "to_binary32 a = Finite (round_to ?u a)" using True by (rule to_binary32_1_2)
  have e: "\<bar>round_to ?u a - a\<bar> \<le> 1 / 2 ^ 23"
    using round_to_error [OF u, of a] by simp
  have "of_int 8421505 * ?u \<le> a" using assms(1) by (simp add: m32_def)
  from round_to_ge [OF u this] have lo: "m32 \<le> round_to ?u a" by (simp add: m32_def)
  have "a \<le> of_int (2 ^ 24) * ?u" using True by simp
  from round_to_le [OF u this] have hi: "round_to ?u a < 2 * m32" by (simp add: m32_def)
  show ?thesis using s e lo hi by simp
next
  case False
  let ?u = "1 / 2 ^ 22 :: real"
  have u: "0 < ?u" by simp
  have "a < 4" using assms(2) by (simp add: m32_def)
  then have s: "to_binary32 a = Finite (round_to ?u a)" using False by (intro to_binary32_2_4) simp_all
  have e: "\<bar>round_to ?u a - a\<bar> \<le> 1 / 2 ^ 23"
    using round_to_error [OF u, of a] by simp
  have "of_int (2 ^ 23) * ?u \<le> a" using False by simp
  from round_to_ge [OF u this] have lo: "m32 \<le> round_to ?u a" by (simp add: m32_def)
  have "a \<le> (of_int 8421504 + 1 / 2) * ?u" using assms(2) by (simp add: m32_def)
  from round_to_tie [OF u _ this] have hi: "round_to ?u a < 2 * m32" by (simp add: m32_def)
  show ?thesis using s e lo hi by simp
qed

subsection \<open>The shape of a result\<close>

lemma m32_pos: "0 < m32"
  by (simp add: m32_def)

lemma rounded_sum_result:
  assumes "rounded_sum s"
  shows "0 \<le> euclid_mod s m32" and "euclid_mod s m32 \<le> 8421504 / 8388608"
proof -
  show "0 \<le> euclid_mod s m32" by (rule euclid_mod_range [OF m32_pos])
  from assms consider
      (low) "0 \<le> s" "s \<le> 1"
    | (mid) n :: int where "1 \<le> s" "s \<le> 2" "s = of_int n / 2 ^ 23"
    | (high) n :: int where "2 \<le> s" "s \<le> 2 * m32" "s = of_int n / 2 ^ 22"
    unfolding rounded_sum_def by blast
  then show "euclid_mod s m32 \<le> 8421504 / 8388608"
  proof cases
    case low
    then have "euclid_mod s m32 = s" by (intro euclid_mod_small) (simp_all add: m32_def)
    then show ?thesis using low by simp
  next
    case mid
    show ?thesis
    proof (cases "s < m32")
      case True
      then have "real_of_int n < 8421505" using mid(3) by (simp add: m32_def)
      then have "n \<le> 8421504" by simp
      then have "real_of_int n \<le> 8421504" by simp
      then have "s \<le> 8421504 / 8388608" using mid(3) by simp
      moreover have "euclid_mod s m32 = s" using True mid(1) by (intro euclid_mod_small) simp_all
      ultimately show ?thesis by simp
    next
      case False
      then have "euclid_mod s m32 = s - m32"
        using mid(2) m32_pos by (intro euclid_mod_second_period) (simp_all add: m32_def)
      then show ?thesis using mid(2) by (simp add: m32_def)
    qed
  next
    case high
    show ?thesis
    proof (cases "s = 2 * m32")
      case True
      then show ?thesis using euclid_mod_twice [OF m32_pos] by simp
    next
      case False
      then have lt: "s < 2 * m32" using high(2) by simp
      then have "real_of_int n < 8421505" using high(3) by (simp add: m32_def)
      then have "n \<le> 8421504" by simp
      then have "real_of_int n \<le> 8421504" by simp
      then have "s \<le> 8421504 / 4194304" using high(3) by simp
      moreover have "euclid_mod s m32 = s - m32"
        using lt high(1) m32_pos by (intro euclid_mod_second_period) (simp_all add: m32_def)
      ultimately show ?thesis by (simp add: m32_def)
    qed
  qed
qed

lemma rounded_sum_nonneg: "rounded_sum s \<Longrightarrow> 0 \<le> s"
  by (auto simp add: rounded_sum_def)

lemma color_modulo_unfold:
  "color_modulo (Finite x) =
     fmod (to_binary32 (trunc_rem x m32 + m32)) (Finite m32)"
  using m32_pos by (simp add: color_modulo_def m32_rounded)

lemma color_modulo_finite:
  "\<exists>s. to_binary32 (trunc_rem x m32 + m32) = Finite s \<and>
     \<bar>s - (trunc_rem x m32 + m32)\<bar> \<le> 1 / 2 ^ 23 \<and> rounded_sum s \<and>
     color_modulo (Finite x) = Finite (euclid_mod s m32)"
proof -
  let ?a = "trunc_rem x m32 + m32"
  have "0 < ?a" and "?a < 2 * m32"
    using trunc_rem_bounds [OF m32_pos, of x] by simp_all
  from sum_rounding [OF this] obtain s
    where s: "to_binary32 ?a = Finite s" "\<bar>s - ?a\<bar> \<le> 1 / 2 ^ 23" "rounded_sum s"
    by blast
  have "0 \<le> s" using s(3) by (rule rounded_sum_nonneg)
  then have "trunc_rem s m32 = euclid_mod s m32" by (intro trunc_rem_nonneg m32_pos)
  then have "color_modulo (Finite x) = Finite (euclid_mod s m32)"
    using s(1) m32_pos by (simp add: color_modulo_unfold)
  then show ?thesis using s by blast
qed

lemmas eval32 = to_binary32_def binary32_exponent_def round_to_def round_half_even_def
  exponent_up_numeral exponent_down_numeral trunc_toward_zero_def trunc_rem_def

lemma quantize_euclid: "quantize x = euclid_mod x (256 / 255)"
  using quantize_period_euclid [of "256 / 255" x] by (simp add: quantize_def quantize_period_def)

text \<open>
  Exact idempotence does not hold: the binary32 value nearest to -0.3 is taken to
  \<open>11809845/16777216\<close>, and that to \<open>5904923/8388608\<close>, one unit of \<open>2^-24\<close> higher.
\<close>

lemma color_modulo_not_idempotent:
  "to_binary32 (- 3 / 10) = Finite (- (5033165 / 16777216)) \<and>
   color_modulo (Finite (- (5033165 / 16777216))) = Finite (11809845 / 16777216) \<and>
   color_modulo (Finite (11809845 / 16777216)) = Finite (5904923 / 8388608)"
proof -
  have a: "to_binary32 (- 3 / 10) = Finite (- (5033165 / 16777216))" by (simp add: eval32)
  have b: "color_modulo (Finite (- (5033165 / 16777216))) = Finite (11809845 / 16777216)"
    by (simp add: color_modulo_unfold m32_def) (simp add: eval32)
  have c: "color_modulo (Finite (11809845 / 16777216)) = Finite (5904923 / 8388608)"
    by (simp add: color_modulo_unfold m32_def) (simp add: eval32)
  show ?thesis using a b c by simp
qed

subsection \<open>The claims\<close>

text \<open>
  Claim C1, as stated, fails. At the input 256 the reference definition gives 0, since
  256 is 255 periods of 256/255; the function returns \<open>8421379/8388608\<close>, about 1.0039,
  because its period is the binary32 constant, slightly longer than 256/255.
\<close>

theorem color_modulo_differs_from_quantize:
  "color_modulo (Finite 256) = Finite (8421379 / 8388608) \<and> quantize 256 = 0 \<and>
   color_modulo (Finite 256) \<noteq> Finite (quantize 256)"
proof -
  have a: "color_modulo (Finite 256) = Finite (8421379 / 8388608)"
    by (simp add: color_modulo_unfold m32_def) (simp add: eval32)
  have b: "quantize 256 = 0" by (simp add: quantize_euclid euclid_mod_def)
  show ?thesis using a b by simp
qed

text \<open>
  Claim C1, amended. The constant \<open>m\<close> is \<open>m32 = 8421505/8388608\<close>. For every real \<open>x\<close>
  the function returns the reference formula \<open>((x' mod m) + m) mod m\<close>, with the Euclidean
  modulus and the period \<open>m32\<close>, of \<open>x' = x + e\<close>, where \<open>e\<close> is the rounding error of the
  one addition \<open>fmod(x, m) + m\<close> and is at most \<open>2^-23\<close> in magnitude.
\<close>

theorem color_modulo_perturbed_quantize:
  "to_binary32 (256 / 255) = Finite m32 \<and>
   (\<exists>e. \<bar>e\<bar> \<le> 1 / 2 ^ 23 \<and>
      fadd (fmod (Finite x) (Finite m32)) (Finite m32) = Finite (trunc_rem x m32 + m32 + e) \<and>
      color_modulo (Finite x) = Finite (quantize_period m32 (x + e)))"
proof -
  let ?r = "trunc_rem x m32"
  from color_modulo_finite [of x] obtain s
    where s: "to_binary32 (?r + m32) = Finite s" "\<bar>s - (?r + m32)\<bar> \<le> 1 / 2 ^ 23"
      "color_modulo (Finite x) = Finite (euclid_mod s m32)"
    by blast
  define e where "e = s - (?r + m32)"
  define k where "k = 1 - trunc_toward_zero (x / m32)"
  have "s = (x + e) + of_int k * m32"
    by (simp add: e_def k_def trunc_rem_def algebra_simps)
  then have "euclid_mod s m32 = euclid_mod (x + e) m32"
    using euclid_mod_add_int [OF m32_pos, of "x + e" k] by simp
  then have c: "color_modulo (Finite x) = Finite (quantize_period m32 (x + e))"
    using s(3) by (simp add: quantize_period_euclid [OF m32_pos])
  have a: "fadd (fmod (Finite x) (Finite m32)) (Finite m32) = Finite (?r + m32 + e)"
    using s(1) m32_pos by (simp add: e_def)
  have "\<bar>e\<bar> \<le> 1 / 2 ^ 23" using s(2) by (simp add: e_def)
  then show ?thesis using a c m32_rounded by blast
qed

text \<open>
  Claim C2. The quantisation is idempotent within floating-point tolerance: for every
  real \<open>x\<close> it returns a number \<open>y\<close>, quantising \<open>y\<close> returns a number \<open>z\<close>, and \<open>z\<close> differs
  from \<open>y\<close> by at most \<open>2^-23\<close>, the machine epsilon of binary32.
\<close>

theorem color_modulo_idempotent_within_ulp:
  "\<exists>y z. color_modulo (Finite x) = Finite y \<and> color_modulo (Finite y) = Finite z \<and>
     \<bar>z - y\<bar> \<le> 1 / 2 ^ 23"
proof -
  from color_modulo_finite [of x] obtain s0
    where s0: "rounded_sum s0" "color_modulo (Finite x) = Finite (euclid_mod s0 m32)"
    by blast
  let ?y = "euclid_mod s0 m32"
  have y: "0 \<le> ?y" "?y \<le> 8421504 / 8388608"
    using s0(1) by (rule rounded_sum_result)+
  then have "?y < m32" by (simp add: m32_def)
  then have "euclid_mod ?y m32 = ?y" using y(1) by (intro euclid_mod_small)
  then have r: "trunc_rem ?y m32 = ?y" using y(1) m32_pos by (simp add: trunc_rem_nonneg)
  have "m32 \<le> ?y + m32" and "?y + m32 \<le> 2 * m32 - 1 / 2 ^ 23"
    using y by (simp_all add: m32_def)
  from sum_rounding_upper [OF this] obtain s
    where s: "to_binary32 (?y + m32) = Finite s" "\<bar>s - (?y + m32)\<bar> \<le> 1 / 2 ^ 23"
      "m32 \<le> s" "s < 2 * m32"
    by blast
  have "0 \<le> s" using s(3) m32_pos by linarith
  then have "trunc_rem s m32 = euclid_mod s m32" by (intro trunc_rem_nonneg m32_pos)
  also have "\<dots> = s - m32" using s(3,4) m32_pos by (intro euclid_mod_second_period)
  finally have "color_modulo (Finite ?y) = Finite (s - m32)"
    using s(1) r m32_pos by (simp add: color_modulo_unfold)
  moreover have "\<bar>(s - m32) - ?y\<bar> \<le> 1 / 2 ^ 23" using s(2) by (simp add: algebra_simps)
  ultimately show ?thesis using s0(2) by blast
qed

text \<open>
  Claim C3. For every real \<open>x\<close>, negative and fractional ones included, the result of
  \<open>color_modulo\<close> is a number in the half-open range from 0 to 256/255.
\<close>

theorem color_modulo_range:
  "\<exists>y. color_modulo (Finite x) = Finite y \<and> 0 \<le> y \<and> y < 256 / 255"
proof -
  from color_modulo_finite [of x] obtain s
    where s: "rounded_sum s" "color_modulo (Finite x) = Finite (euclid_mod s m32)"
    by blast
  have "0 \<le> euclid_mod s m32" "euclid_mod s m32 \<le> 8421504 / 8388608"
    using s(1) by (rule rounded_sum_result)+
  then show ?thesis using s(2) by simp
qed

text \<open>
  Claim C4, as stated, fails. The sum \<open>1 + m32\<close> lies between 2 and 4, where binary32
  numbers are \<open>2^-22\<close> apart, and is halfway between two of them; it is rounded to the
  even one, the lower, and the result is not 1.
\<close>

theorem color_modulo_one_not_one:
  "color_modulo (Finite 1) \<noteq> Finite 1"
  by (simp add: color_modulo_unfold m32_def) (simp add: eval32)

text \<open>
  Claim C4, amended. On the input 1.0 the quantisation returns \<open>1 - 2^-23\<close>, which is
  1.0 to within \<open>2^-23\<close>, and nowhere near 0.00392.
\<close>

theorem color_modulo_one_ulp_below:
  "color_modulo (Finite 1) = Finite (1 - 1 / 2 ^ 23) \<and>
   \<bar>(1 - 1 / 2 ^ 23) - 1\<bar> \<le> (1 / 2 ^ 23 :: real) \<and>
   99 / 100 < \<bar>(1 - 1 / 2 ^ 23) - 392 / 100000 :: real\<bar>"
  by (simp add: color_modulo_unfold m32_def) (simp add: eval32)

text \<open>
  Claim C10. The overload for \<open>double\<close> is the overload for \<open>float\<close> applied to the
  argument narrowed to binary32, so the quantisation is computed in single precision:
  the double \<open>1 + 2^-30\<close> is quantised as 1.0 is, the double 0.1 as the binary32 number
  \<open>13421773/134217728\<close> is, and a double beyond the range of \<open>float\<close> gives NaN.
\<close>

theorem color_modulo_double_narrows:
  "color_modulo_double x = color_modulo (static_cast_float x) \<and>
   color_modulo_double (Finite (1 + 1 / 2 ^ 30)) = color_modulo (Finite 1) \<and>
   color_modulo_double (Finite (1 / 10)) = Finite (838861 / 8388608) \<and>
   color_modulo_double (Finite (10 ^ 39)) = NaN"
proof -
  have a: "static_cast_float (Finite (1 + 1 / 2 ^ 30)) = Finite 1" by (simp add: eval32)
  have b: "static_cast_float (Finite (1 / 10)) = Finite (13421773 / 134217728)"
    by (simp add: eval32)
  have c: "color_modulo (Finite (13421773 / 134217728)) = Finite (838861 / 8388608)"
    by (simp add: color_modulo_unfold m32_def) (simp add: eval32)
  have d: "static_cast_float (Finite (10 ^ 39)) = PlusInfinity" by (simp add: to_binary32_def)
  have e: "color_modulo PlusInfinity = NaN" by (simp add: color_modulo_def m32_rounded)
  show ?thesis using a b c d e by (simp add: color_modulo_double_def)
qed

section \<open>Properties of the render item and of the transition\<close>

text \<open>
  Claim C8. \<open>Init\<close> is an optional hook whose default does nothing: for a render item
  whose class does not override \<open>Init\<close>, the call leaves the whole state as it was.
\<close>

theorem Init_default_noop:
  "Init_override item = None \<Longrightarrow> Init item s = s"
  by (simp add: Init_def RenderItem_Init_def)

theorem Init_default_noop_witness:
  "Init_override plain_item = None \<and> Init plain_item (3::nat) = 3"
  using Init_default_noop [of plain_item 3] by (simp add: plain_item_def)

text \<open>
  Claim C9. \<open>PresetTransition::Draw\<close> is a stub: for every old and new preset, render
  context, audio data and frame time, it issues no draw call and leaves duration, start
  time, random values and shader reference of the transition as they were.
\<close>

theorem PresetTransition_Draw_stub:
  "PresetTransition_Draw oldPreset newPreset context audioData currentFrameTime (self, gl)
     = (self, gl)"
  by (simp add: PresetTransition_Draw_def)

section \<open>Properties of the warp mesh\<close>

subsection \<open>What each operation leaves alone\<close>

lemma buffers_sized_shape: "shape a = shape b \<Longrightarrow> buffers_sized a = buffers_sized b"
  by (simp add: shape_def buffers_sized_def)

lemma write_vertex_shape: "shape (write_vertex pf pp i self) = shape self"
  by (simp add: write_vertex_def shape_def Let_def)

lemma write_vertex_warpShader: "m_warpShader (write_vertex pf pp i self) = m_warpShader self"
  by (simp add: write_vertex_def Let_def)

lemma write_vertex_sampler:
  "m_perPixelSampler (write_vertex pf pp i self) = m_perPixelSampler self"
  by (simp add: write_vertex_def Let_def)

lemma write_vertex_cache:
  "m_perPixelMeshShader (write_vertex pf pp i self) = m_perPixelMeshShader self"
  by (simp add: write_vertex_def Let_def)

lemma fold_keeps:
  assumes "\<And>i s. P (f i s) = P s"
  shows "P (fold f is s) = P s"
  using assms by (induction "is" arbitrary: s) simp_all

lemma CalculateMesh_shape: "shape (CalculateMesh ps pf pp self) = shape self"
  unfolding CalculateMesh_def by (rule fold_keeps) (rule write_vertex_shape)

lemma CalculateMesh_warpShader: "m_warpShader (CalculateMesh ps pf pp self) = m_warpShader self"
  unfolding CalculateMesh_def by (rule fold_keeps) (rule write_vertex_warpShader)

lemma CalculateMesh_sampler:
  "m_perPixelSampler (CalculateMesh ps pf pp self) = m_perPixelSampler self"
  unfolding CalculateMesh_def by (rule fold_keeps) (rule write_vertex_sampler)

lemma CalculateMesh_cache:
  "m_perPixelMeshShader (CalculateMesh ps pf pp self) = m_perPixelMeshShader self"
  unfolding CalculateMesh_def by (rule fold_keeps) (rule write_vertex_cache)

lemma InitializeMesh_warpShader:
  "m_warpShader (fst (InitializeMesh ext ps (self, gpu))) = m_warpShader self"
  by (simp add: InitializeMesh_def Let_def)

lemma InitializeMesh_sampler:
  "m_perPixelSampler (fst (InitializeMesh ext ps (self, gpu))) = m_perPixelSampler self"
  by (simp add: InitializeMesh_def Let_def)

lemma InitializeMesh_cache:
  "m_perPixelMeshShader (fst (InitializeMesh ext ps (self, gpu))) = m_perPixelMeshShader self"
  by (simp add: InitializeMesh_def Let_def)

lemma InitializeMesh_drawCalls:
  "drawCalls (snd (InitializeMesh ext ps (self, gpu))) = drawCalls gpu"
  by (simp add: InitializeMesh_def Let_def)

lemma InitializeMesh_grid:
  "m_gridSizeX (fst (InitializeMesh ext ps (self, gpu))) = gridX ps \<and>
   m_gridSizeY (fst (InitializeMesh ext ps (self, gpu))) = gridY ps"
  by (simp add: InitializeMesh_def Let_def)

lemma InitializeMesh_allocations:
  "allocations (snd (InitializeMesh ext ps (self, gpu))) =
     allocations gpu +
       (if m_gridSizeX self \<noteq> gridX ps \<or> m_gridSizeY self \<noteq> gridY ps then 5 else 0)"
  by (simp add: InitializeMesh_def Let_def)

lemma InitializeMesh_sized:
  assumes "0 \<le> gridX ps * gridY ps" and "buffers_sized self"
  shows "buffers_sized (fst (InitializeMesh ext ps (self, gpu)))"
  using assms by (auto simp add: InitializeMesh_def Let_def buffers_sized_def)

lemma WarpedBlit_shape: "shape (fst (WarpedBlit ps pf (self, gpu))) = shape self"
  by (simp add: WarpedBlit_def GetDefaultWarpShader_def shape_def Let_def
      split: option.split)

lemma WarpedBlit_warpShader: "m_warpShader (fst (WarpedBlit ps pf (self, gpu))) = m_warpShader self"
  by (simp add: WarpedBlit_def GetDefaultWarpShader_def Let_def split: option.split)

lemma WarpedBlit_sampler:
  "m_perPixelSampler (fst (WarpedBlit ps pf (self, gpu))) = m_perPixelSampler self"
  by (simp add: WarpedBlit_def GetDefaultWarpShader_def Let_def split: option.split)

lemma WarpedBlit_allocations:
  "allocations (snd (WarpedBlit ps pf (self, gpu))) = allocations gpu"
  by (simp add: WarpedBlit_def GetDefaultWarpShader_def Let_def split: option.split)

lemma WarpedBlit_cache:
  "cache_ok self \<Longrightarrow> cache_ok (fst (WarpedBlit ps pf (self, gpu)))"
  by (auto simp add: WarpedBlit_def GetDefaultWarpShader_def cache_ok_def Let_def
      split: option.split)

lemma WarpedBlit_drawCalls:
  assumes "cache_ok self"
  shows "drawCalls (snd (WarpedBlit ps pf (self, gpu))) =
     drawCalls gpu @
       [\<lparr>dc_shader =
            (case m_warpShader self of
               Some sh \<Rightarrow>
                 if shaderCompiled sh then CustomWarpShader (shaderCode sh)
                 else DefaultWarpShader
             | None \<Rightarrow> DefaultWarpShader),
          dc_texture = previousFrameTexture ps,
          dc_sampler = m_perPixelSampler self,
          dc_vertices = nat (m_gridSizeX self * m_gridSizeY self)\<rparr>]"
  using assms
  by (auto simp add: WarpedBlit_def GetDefaultWarpShader_def cache_ok_def Let_def
      split: option.split)

subsection \<open>One call of Draw\<close>

lemma Draw_shape_grid:
  "m_gridSizeX (fst (PerPixelMesh_Draw ext ps pf pp (self, gpu))) = gridX ps \<and>
   m_gridSizeY (fst (PerPixelMesh_Draw ext ps pf pp (self, gpu))) = gridY ps"
proof -
  obtain s1 g1 where i: "InitializeMesh ext ps (self, gpu) = (s1, g1)" by force
  have g: "m_gridSizeX s1 = gridX ps \<and> m_gridSizeY s1 = gridY ps"
    using InitializeMesh_grid [of ext ps self gpu] i by simp
  have "shape (fst (WarpedBlit ps pf (CalculateMesh ps pf pp s1, g1))) = shape s1"
    by (simp add: WarpedBlit_shape CalculateMesh_shape)
  then show ?thesis using g i by (simp add: PerPixelMesh_Draw_def shape_def)
qed

lemma Draw_allocations:
  "allocations (snd (PerPixelMesh_Draw ext ps pf pp (self, gpu))) =
     allocations gpu +
       (if m_gridSizeX self \<noteq> gridX ps \<or> m_gridSizeY self \<noteq> gridY ps then 5 else 0)"
proof -
  obtain s1 g1 where i: "InitializeMesh ext ps (self, gpu) = (s1, g1)" by force
  have "allocations g1 = allocations gpu +
       (if m_gridSizeX self \<noteq> gridX ps \<or> m_gridSizeY self \<noteq> gridY ps then 5 else 0)"
    using InitializeMesh_allocations [of ext ps self gpu] i by simp
  then show ?thesis using i by (simp add: PerPixelMesh_Draw_def WarpedBlit_allocations)
qed

lemma Draw_sized:
  assumes "valid_preset ps" and "buffers_sized self"
  shows "buffers_sized (fst (PerPixelMesh_Draw ext ps pf pp (self, gpu)))"
proof -
  obtain s1 g1 where i: "InitializeMesh ext ps (self, gpu) = (s1, g1)" by force
  have "0 \<le> gridX ps * gridY ps" using assms(1) by (simp add: valid_preset_def)
  then have "buffers_sized s1"
    using InitializeMesh_sized [of ps self ext gpu] assms(2) i by simp
  moreover have "shape (fst (WarpedBlit ps pf (CalculateMesh ps pf pp s1, g1))) = shape s1"
    by (simp add: WarpedBlit_shape CalculateMesh_shape)
  then have "buffers_sized (fst (WarpedBlit ps pf (CalculateMesh ps pf pp s1, g1))) =
      buffers_sized s1"
    by (rule buffers_sized_shape)
  ultimately show ?thesis using i by (simp add: PerPixelMesh_Draw_def)
qed

lemma Draw_warpShader:
  "m_warpShader (fst (PerPixelMesh_Draw ext ps pf pp (self, gpu))) = m_warpShader self"
proof -
  obtain s1 g1 where i: "InitializeMesh ext ps (self, gpu) = (s1, g1)" by force
  have "m_warpShader s1 = m_warpShader self"
    using InitializeMesh_warpShader [of ext ps self gpu] i by simp
  then show ?thesis using i
    by (simp add: PerPixelMesh_Draw_def WarpedBlit_warpShader CalculateMesh_warpShader)
qed

lemma Draw_sampler:
  "m_perPixelSampler (fst (PerPixelMesh_Draw ext ps pf pp (self, gpu))) = m_perPixelSampler self"
proof -
  obtain s1 g1 where i: "InitializeMesh ext ps (self, gpu) = (s1, g1)" by force
  have "m_perPixelSampler s1 = m_perPixelSampler self"
    using InitializeMesh_sampler [of ext ps self gpu] i by simp
  then show ?thesis using i
    by (simp add: PerPixelMesh_Draw_def WarpedBlit_sampler CalculateMesh_sampler)
qed

lemma Draw_cache:
  assumes "cache_ok self"
  shows "cache_ok (fst (PerPixelMesh_Draw ext ps pf pp (self, gpu)))"
proof -
  obtain s1 g1 where i: "InitializeMesh ext ps (self, gpu) = (s1, g1)" by force
  have "m_perPixelMeshShader s1 = m_perPixelMeshShader self"
    using InitializeMesh_cache [of ext ps self gpu] i by simp
  then have "cache_ok (CalculateMesh ps pf pp s1)"
    using assms by (simp add: cache_ok_def CalculateMesh_cache)
  then show ?thesis using i by (simp add: PerPixelMesh_Draw_def WarpedBlit_cache)
qed

lemma Draw_drawCalls:
  assumes "cache_ok self"
  shows "drawCalls (snd (PerPixelMesh_Draw ext ps pf pp (self, gpu))) =
     drawCalls gpu @
       [\<lparr>dc_shader =
            (case m_warpShader self of
               Some sh \<Rightarrow>
                 if shaderCompiled sh then CustomWarpShader (shaderCode sh)
                 else DefaultWarpShader
             | None \<Rightarrow> DefaultWarpShader),
          dc_texture = previousFrameTexture ps,
          dc_sampler = m_perPixelSampler self,
          dc_vertices = nat (gridX ps * gridY ps)\<rparr>]"
proof -
  obtain s1 g1 where i: "InitializeMesh ext ps (self, gpu) = (s1, g1)" by force
  let ?c = "CalculateMesh ps pf pp s1"
  have a: "m_perPixelMeshShader s1 = m_perPixelMeshShader self"
    "m_warpShader s1 = m_warpShader self" "m_perPixelSampler s1 = m_perPixelSampler self"
    "drawCalls g1 = drawCalls gpu" "m_gridSizeX s1 = gridX ps" "m_gridSizeY s1 = gridY ps"
    using InitializeMesh_cache [of ext ps self gpu] InitializeMesh_warpShader [of ext ps self gpu]
      InitializeMesh_sampler [of ext ps self gpu] InitializeMesh_drawCalls [of ext ps self gpu]
      InitializeMesh_grid [of ext ps self gpu] i
    by simp_all
  have c: "cache_ok ?c" using assms a by (simp add: cache_ok_def CalculateMesh_cache)
  have "shape ?c = shape s1" by (rule CalculateMesh_shape)
  then have g: "m_gridSizeX ?c = gridX ps" "m_gridSizeY ?c = gridY ps"
    using a by (simp_all add: shape_def)
  show ?thesis
    using WarpedBlit_drawCalls [OF c, of ps pf g1] a g i
    by (simp add: PerPixelMesh_Draw_def CalculateMesh_warpShader CalculateMesh_sampler)
qed

subsection \<open>Histories\<close>

lemma CompileWarpShader_returns:
  "\<exists>self' gpu'. CompileWarpShader ext ps (self, gpu) = Inr (self', gpu') \<and>
     shape self' = shape self \<and> m_perPixelSampler self' = m_perPixelSampler self \<and>
     m_perPixelMeshShader self' = m_perPixelMeshShader self \<and>
     drawCalls gpu' = drawCalls gpu \<and> allocations gpu' = allocations gpu"
  by (auto simp add: CompileWarpShader_def LoadTexturesAndCompile_def shape_def
      split: option.split sum.split ShaderException.split)

lemma LoadWarpShader_keeps:
  "shape (LoadWarpShader ps self) = shape self \<and>
   m_perPixelSampler (LoadWarpShader ps self) = m_perPixelSampler self \<and>
   m_perPixelMeshShader (LoadWarpShader ps self) = m_perPixelMeshShader self"
  by (simp add: LoadWarpShader_def shape_def split: option.split)

lemma step_ok:
  assumes "mesh_ok self"
  shows "\<exists>self' gpu'. step ext operation (self, gpu) = Inr (self', gpu') \<and> mesh_ok self'"
proof (cases operation)
  case (OpLoadWarpShader ps)
  then show ?thesis using assms LoadWarpShader_keeps [of ps self]
    by (simp add: mesh_ok_def cache_ok_def)
next
  case (OpCompileWarpShader ps)
  then show ?thesis using assms CompileWarpShader_returns [of ext ps self gpu]
    by (auto simp add: mesh_ok_def cache_ok_def)
next
  case (OpDraw ps pf pp)
  obtain s g where d: "PerPixelMesh_Draw ext ps pf pp (self, gpu) = (s, g)" by force
  have "cache_ok s" using Draw_cache [of self ext ps pf pp gpu] assms d by (simp add: mesh_ok_def)
  moreover have "m_perPixelSampler s = clamp_linear"
    using Draw_sampler [of ext ps pf pp self gpu] assms d by (simp add: mesh_ok_def)
  ultimately show ?thesis using OpDraw d by (simp add: mesh_ok_def)
qed

lemma step_sized:
  assumes "valid_operation operation" and "buffers_sized self"
    and "step ext operation (self, gpu) = Inr (self', gpu')"
  shows "buffers_sized self'"
proof (cases operation)
  case (OpLoadWarpShader ps)
  have "buffers_sized (LoadWarpShader ps self) = buffers_sized self"
    using LoadWarpShader_keeps [of ps self] by (intro buffers_sized_shape) simp
  then show ?thesis using assms OpLoadWarpShader by auto
next
  case (OpCompileWarpShader ps)
  from CompileWarpShader_returns [of ext ps self gpu] obtain s g
    where c: "CompileWarpShader ext ps (self, gpu) = Inr (s, g)" and sh: "shape s = shape self"
    by blast
  have "buffers_sized s = buffers_sized self" using sh by (rule buffers_sized_shape)
  then show ?thesis using assms OpCompileWarpShader c by auto
next
  case (OpDraw ps pf pp)
  then show ?thesis using assms Draw_sized [of ps self ext pf pp gpu] by auto
qed

lemma run_ok:
  assumes "mesh_ok self"
  shows "\<exists>self' gpu'. run ext history (self, gpu) = Inr (self', gpu') \<and> mesh_ok self'"
  using assms
proof (induction history arbitrary: self gpu)
  case Nil
  then show ?case by simp
next
  case (Cons operation rest)
  from step_ok [OF Cons.prems] obtain s g
    where s: "step ext operation (self, gpu) = Inr (s, g)" and ok: "mesh_ok s" by blast
  from Cons.IH [OF ok] show ?case using s by simp
qed

lemma run_sized:
  assumes "list_all valid_operation history" and "buffers_sized self"
    and "run ext history (self, gpu) = Inr (self', gpu')"
  shows "buffers_sized self'"
  using assms
proof (induction history arbitrary: self gpu)
  case Nil
  then show ?case by simp
next
  case (Cons operation rest)
  from Cons.prems(3) obtain s g
    where s: "step ext operation (self, gpu) = Inr (s, g)"
      and r: "run ext rest (s, g) = Inr (self', gpu')"
    by (auto split: sum.splits)
  have "buffers_sized s" using step_sized [OF _ Cons.prems(2) s] Cons.prems(1) by simp
  then show ?case using Cons.IH [OF _ _ r] Cons.prems(1) by simp
qed

lemma new_ok: "mesh_ok PerPixelMesh_new"
  by (simp add: mesh_ok_def cache_ok_def clamp_linear_def PerPixelMesh_new_def)

lemma new_sized: "buffers_sized PerPixelMesh_new"
  by (simp add: buffers_sized_def PerPixelMesh_new_def)

lemma Draw_frames_default:
  assumes "m_warpShader self = None" and "cache_ok self"
  shows "\<exists>calls. drawCalls (snd (Draw_frames ext frames (self, gpu))) = drawCalls gpu @ calls \<and>
           length calls = length frames \<and> (\<forall>c \<in> set calls. dc_shader c = DefaultWarpShader)"
  using assms
proof (induction frames arbitrary: self gpu)
  case Nil
  then show ?case by simp
next
  case (Cons frame rest)
  obtain ps pf pp where f: "frame = (ps, pf, pp)" by (cases frame) auto
  obtain s g where d: "PerPixelMesh_Draw ext ps pf pp (self, gpu) = (s, g)" by force
  have s: "m_warpShader s = None" "cache_ok s"
    using Draw_warpShader [of ext ps pf pp self gpu] Draw_cache [OF Cons.prems(2), of ext ps pf pp gpu]
      Cons.prems(1) d by simp_all
  have "\<exists>c. drawCalls g = drawCalls gpu @ [c] \<and> dc_shader c = DefaultWarpShader"
    using Draw_drawCalls [OF Cons.prems(2), of ext ps pf pp gpu] Cons.prems(1) d by simp
  then obtain c where c: "drawCalls g = drawCalls gpu @ [c]" "dc_shader c = DefaultWarpShader"
    by blast
  from Cons.IH [OF s] obtain calls
    where calls: "drawCalls (snd (Draw_frames ext rest (s, g))) = drawCalls g @ calls"
      "length calls = length rest" "\<forall>c \<in> set calls. dc_shader c = DefaultWarpShader"
    by blast
  have "drawCalls (snd (Draw_frames ext (frame # rest) (self, gpu))) = drawCalls gpu @ (c # calls)"
    using f d calls(1) c(1) by simp
  moreover have "length (c # calls) = length (frame # rest)" using calls(2) by simp
  moreover have "\<forall>c' \<in> set (c # calls). dc_shader c' = DefaultWarpShader"
    using calls(3) c(2) by simp
  ultimately show ?case by blast
qed

lemma compileError_examples:
  "compileError example_collaborators good_source = None"
  "compileError example_collaborators bad_source = Some ''syntax error''"
  by (simp_all add: example_collaborators_def good_source_def bad_source_def)

subsection \<open>Buffer sizes and reallocation\<close>

text \<open>
  Claim C5. After any history of calls with valid preset states, each of the five vertex
  buffers holds exactly \<open>m_gridSizeX * m_gridSizeY\<close> elements; after a further call of
  \<open>InitializeMesh\<close> for a valid preset state each holds exactly \<open>gridX * gridY\<close>
  elements of the requested resolution; that call allocates exactly when the requested
  resolution differs from the current one; and of two consecutive calls of \<open>Draw\<close> the
  second allocates nothing when its resolution is that of the first.
\<close>

theorem PerPixelMesh_buffers_follow_grid:
  assumes "list_all valid_operation history" and "valid_preset ps"
  shows "\<exists>self gpu.
     run ext history (PerPixelMesh_new, gpu0) = Inr (self, gpu) \<and> buffers_sized self \<and>
     (let (self', gpu') = InitializeMesh ext ps (self, gpu)
      in int (length (m_radiusAngleBuffer self')) = gridX ps * gridY ps \<and>
         int (length (m_zoomRotWarpBuffer self')) = gridX ps * gridY ps \<and>
         int (length (m_centerBuffer self')) = gridX ps * gridY ps \<and>
         int (length (m_distanceBuffer self')) = gridX ps * gridY ps \<and>
         int (length (m_stretchBuffer self')) = gridX ps * gridY ps \<and>
         m_gridSizeX self' = gridX ps \<and> m_gridSizeY self' = gridY ps \<and>
         (allocations gpu' = allocations gpu) =
           (m_gridSizeX self = gridX ps \<and> m_gridSizeY self = gridY ps)) \<and>
     (let w1 = PerPixelMesh_Draw ext ps pf1 pp1 (self, gpu);
          w2 = PerPixelMesh_Draw ext ps2 pf2 pp2 w1
      in gridX ps2 = gridX ps \<and> gridY ps2 = gridY ps \<longrightarrow>
         allocations (snd w2) = allocations (snd w1))"
proof -
  from run_ok [OF new_ok] obtain self gpu
    where r: "run ext history (PerPixelMesh_new, gpu0) = Inr (self, gpu)" by blast
  have s: "buffers_sized self" using run_sized [OF assms(1) new_sized r] .
  obtain s1 g1 where i: "InitializeMesh ext ps (self, gpu) = (s1, g1)" by force
  have nonneg: "0 \<le> gridX ps * gridY ps" using assms(2) by (simp add: valid_preset_def)
  have s1: "buffers_sized s1"
    using InitializeMesh_sized [OF nonneg s, of ext gpu] i by simp
  have g1: "m_gridSizeX s1 = gridX ps" "m_gridSizeY s1 = gridY ps"
    using InitializeMesh_grid [of ext ps self gpu] i by simp_all
  have a1: "(allocations g1 = allocations gpu) =
      (m_gridSizeX self = gridX ps \<and> m_gridSizeY self = gridY ps)"
    using InitializeMesh_allocations [of ext ps self gpu] i by auto
  obtain s2 g2 where d: "PerPixelMesh_Draw ext ps pf1 pp1 (self, gpu) = (s2, g2)" by force
  have g2: "m_gridSizeX s2 = gridX ps" "m_gridSizeY s2 = gridY ps"
    using Draw_shape_grid [of ext ps pf1 pp1 self gpu] d by simp_all
  have a2: "gridX ps2 = gridX ps \<and> gridY ps2 = gridY ps \<longrightarrow>
      allocations (snd (PerPixelMesh_Draw ext ps2 pf2 pp2 (s2, g2))) = allocations g2"
    using Draw_allocations [of ext ps2 pf2 pp2 s2 g2] g2 by simp
  show ?thesis
    using r s i s1 g1 a1 d a2 by (simp add: buffers_sized_def Let_def)
qed

theorem PerPixelMesh_buffers_follow_grid_witness:
  "list_all valid_operation [OpDraw (example_preset 4 None) identity_frame None] \<and>
   valid_preset (example_preset 8 None) \<and>
   (case run example_collaborators [OpDraw (example_preset 4 None) identity_frame None]
           (PerPixelMesh_new, fresh_backend) of
      Inl e \<Rightarrow> False
    | Inr w \<Rightarrow>
        map (\<lambda>buffer. buffer (fst (InitializeMesh example_collaborators (example_preset 8 None) w)))
          [length \<circ> m_radiusAngleBuffer, length \<circ> m_zoomRotWarpBuffer, length \<circ> m_centerBuffer,
           length \<circ> m_distanceBuffer, length \<circ> m_stretchBuffer] = [64, 64, 64, 64, 64])"
proof -
  have h1: "list_all valid_operation [OpDraw (example_preset 4 None) identity_frame None]"
    by (simp add: valid_preset_def example_preset_def)
  have h2: "valid_preset (example_preset 8 None)"
    by (simp add: valid_preset_def example_preset_def)
  from PerPixelMesh_buffers_follow_grid [OF h1 h2, of example_collaborators fresh_backend]
  obtain self gpu where
    r: "run example_collaborators [OpDraw (example_preset 4 None) identity_frame None]
          (PerPixelMesh_new, fresh_backend) = Inr (self, gpu)"
    and l: "(let (self', gpu') = InitializeMesh example_collaborators (example_preset 8 None) (self, gpu)
      in int (length (m_radiusAngleBuffer self')) = gridX (example_preset 8 None) * gridY (example_preset 8 None) \<and>
         int (length (m_zoomRotWarpBuffer self')) = gridX (example_preset 8 None) * gridY (example_preset 8 None) \<and>
         int (length (m_centerBuffer self')) = gridX (example_preset 8 None) * gridY (example_preset 8 None) \<and>
         int (length (m_distanceBuffer self')) = gridX (example_preset 8 None) * gridY (example_preset 8 None) \<and>
         int (length (m_stretchBuffer self')) = gridX (example_preset 8 None) * gridY (example_preset 8 None) \<and>
         m_gridSizeX self' = gridX (example_preset 8 None) \<and> m_gridSizeY self' = gridY (example_preset 8 None) \<and>
         (allocations gpu' = allocations gpu) =
           (m_gridSizeX self = gridX (example_preset 8 None) \<and> m_gridSizeY self = gridY (example_preset 8 None)))"
    by blast
  obtain s1 g1 where i: "InitializeMesh example_collaborators (example_preset 8 None) (self, gpu) = (s1, g1)"
    by force
  from l i have "int (length (m_radiusAngleBuffer s1)) = 64" "int (length (m_zoomRotWarpBuffer s1)) = 64"
    "int (length (m_centerBuffer s1)) = 64" "int (length (m_distanceBuffer s1)) = 64"
    "int (length (m_stretchBuffer s1)) = 64"
    by (simp_all add: example_preset_def)
  then show ?thesis using h1 h2 r i by simp
qed

subsection \<open>Falling back to the default warp shader\<close>

text \<open>
  Claim C6. When the object holds a warp shader whose source does not compile,
  \<open>CompileWarpShader\<close> returns normally (the message goes to the log), and every call of
  \<open>Draw\<close> after it, for any frames, issues its draw call with the default warp shader.
\<close>

theorem CompileWarpShader_failure_uses_default:
  assumes "run ext history (PerPixelMesh_new, gpu0) = Inr (self, gpu)"
    and "m_warpShader self = Some sh"
    and "compileError ext (shaderCode sh) = Some message"
  shows "\<exists>self' gpu'.
     CompileWarpShader ext ps (self, gpu) = Inr (self', gpu') \<and>
     diagnostics gpu' = diagnostics gpu @ [message] \<and>
     (\<exists>calls. drawCalls (snd (Draw_frames ext frames (self', gpu'))) = drawCalls gpu @ calls \<and>
        length calls = length frames \<and>
        (\<forall>c \<in> set calls. dc_shader c = DefaultWarpShader))"
proof -
  from run_ok [OF new_ok, of ext history gpu0] assms(1) have "mesh_ok self" by simp
  then have c: "cache_ok self" by (simp add: mesh_ok_def)
  let ?s = "self\<lparr>m_warpShader := None\<rparr>"
  let ?g = "gpu\<lparr>diagnostics := diagnostics gpu @ [message]\<rparr>"
  have k: "CompileWarpShader ext ps (self, gpu) = Inr (?s, ?g)"
    using assms(2,3) by (simp add: CompileWarpShader_def LoadTexturesAndCompile_def)
  have "m_warpShader ?s = None" and "cache_ok ?s" using c by (simp_all add: cache_ok_def)
  from Draw_frames_default [OF this, of ext frames ?g] k show ?thesis by simp
qed

theorem CompileWarpShader_failure_uses_default_witness:
  "run example_collaborators [OpLoadWarpShader (example_preset 4 (Some bad_source))]
       (PerPixelMesh_new, fresh_backend)
     = Inr (LoadWarpShader (example_preset 4 (Some bad_source)) PerPixelMesh_new, fresh_backend) \<and>
   m_warpShader (LoadWarpShader (example_preset 4 (Some bad_source)) PerPixelMesh_new)
     = Some \<lparr>shaderCode = bad_source, shaderCompiled = False\<rparr> \<and>
   compileError example_collaborators bad_source = Some ''syntax error'' \<and>
   (case CompileWarpShader example_collaborators (example_preset 4 (Some bad_source))
           (LoadWarpShader (example_preset 4 (Some bad_source)) PerPixelMesh_new, fresh_backend) of
      Inl e \<Rightarrow> False
    | Inr w \<Rightarrow>
        map dc_shader
          (drawCalls (snd (Draw_frames example_collaborators
             [(example_preset 4 (Some bad_source), identity_frame, None),
              (example_preset 4 (Some bad_source), identity_frame, Some (\<lambda>pf ra. pf))] w)))
        = [DefaultWarpShader, DefaultWarpShader])"
proof -
  let ?P = "example_preset 4 (Some bad_source)"
  let ?S = "LoadWarpShader ?P PerPixelMesh_new"
  let ?sh = "\<lparr>shaderCode = bad_source, shaderCompiled = False\<rparr>"
  let ?F = "[(?P, identity_frame, None), (?P, identity_frame, Some (\<lambda>pf ra. pf))]"
  have h1: "run example_collaborators [OpLoadWarpShader ?P] (PerPixelMesh_new, fresh_backend)
      = Inr (?S, fresh_backend)"
    by simp
  have h2: "m_warpShader ?S = Some ?sh"
    by (simp add: LoadWarpShader_def example_preset_def)
  have h3: "compileError example_collaborators (shaderCode ?sh) = Some ''syntax error''"
    by (simp add: compileError_examples)
  from CompileWarpShader_failure_uses_default [OF h1 h2 h3, of ?P ?F]
  obtain self' gpu' calls where
    c: "CompileWarpShader example_collaborators ?P (?S, fresh_backend) = Inr (self', gpu')"
    and d: "drawCalls (snd (Draw_frames example_collaborators ?F (self', gpu')))
        = drawCalls fresh_backend @ calls"
    and l: "length calls = length ?F"
    and a: "\<forall>c \<in> set calls. dc_shader c = DefaultWarpShader"
    by auto
  from l obtain c1 c2 where "calls = [c1, c2]"
    by (cases calls; cases "tl calls") auto
  with a d have "map dc_shader (drawCalls (snd (Draw_frames example_collaborators ?F (self', gpu'))))
      = [DefaultWarpShader, DefaultWarpShader]"
    by (simp add: fresh_backend_def)
  then show ?thesis using h1 h2 h3 c by simp
qed

subsection \<open>Sampling state of the warped blit\<close>

text \<open>
  Claim C7. In every state the object can reach, the draw call of the warped blit samples
  the previous frame's texture with clamp-to-edge addressing and linear filtering, on the
  path of the custom shader and on that of the default shader alike.
\<close>

theorem WarpedBlit_sampler_clamp_linear:
  "\<exists>self gpu.
     run ext history (PerPixelMesh_new, gpu0) = Inr (self, gpu) \<and>
     (\<exists>call. drawCalls (snd (PerPixelMesh_Draw ext ps pf pp (self, gpu))) = drawCalls gpu @ [call] \<and>
        dc_texture call = previousFrameTexture ps \<and>
        dc_sampler call = \<lparr>wrapMode = GL_CLAMP_TO_EDGE, filterMode = GL_LINEAR\<rparr> \<and>
        dc_shader call =
          (case m_warpShader self of
             Some sh \<Rightarrow>
               if shaderCompiled sh then CustomWarpShader (shaderCode sh) else DefaultWarpShader
           | None \<Rightarrow> DefaultWarpShader))"
proof -
  from run_ok [OF new_ok] obtain self gpu
    where r: "run ext history (PerPixelMesh_new, gpu0) = Inr (self, gpu)" and ok: "mesh_ok self"
    by blast
  from ok have c: "cache_ok self" and s: "m_perPixelSampler self = clamp_linear"
    by (simp_all add: mesh_ok_def)
  show ?thesis
    using r s Draw_drawCalls [OF c, of ext ps pf pp gpu] by (simp add: clamp_linear_def)
qed

theorem WarpedBlit_sampler_clamp_linear_witness:
  "(case run example_collaborators
           [OpLoadWarpShader (example_preset 4 (Some good_source)),
            OpCompileWarpShader (example_preset 4 (Some good_source))]
           (PerPixelMesh_new, fresh_backend) of
      Inl e \<Rightarrow> False
    | Inr w \<Rightarrow>
        map (\<lambda>c. (dc_shader c, dc_sampler c))
          (drawCalls (snd (PerPixelMesh_Draw example_collaborators
             (example_preset 4 (Some good_source)) identity_frame None w)))
        = [(CustomWarpShader good_source,
            \<lparr>wrapMode = GL_CLAMP_TO_EDGE, filterMode = GL_LINEAR\<rparr>)]) \<and>
   (case run example_collaborators
           [OpLoadWarpShader (example_preset 4 (Some bad_source)),
            OpCompileWarpShader (example_preset 4 (Some bad_source))]
           (PerPixelMesh_new, fresh_backend) of
      Inl e \<Rightarrow> False
    | Inr w \<Rightarrow>
        map (\<lambda>c. (dc_shader c, dc_sampler c))
          (drawCalls (snd (PerPixelMesh_Draw example_collaborators
             (example_preset 4 (Some bad_source)) identity_frame None w)))
        = [(DefaultWarpShader,
            \<lparr>wrapMode = GL_CLAMP_TO_EDGE, filterMode = GL_LINEAR\<rparr>)])"
proof -
  let ?E = example_collaborators
  let ?G = "example_preset 4 (Some good_source)"
  let ?B = "example_preset 4 (Some bad_source)"
  let ?sg = "PerPixelMesh_new\<lparr>m_warpShader := Some \<lparr>shaderCode = good_source, shaderCompiled = True\<rparr>\<rparr>"
  let ?sb = "PerPixelMesh_new\<lparr>m_warpShader := None\<rparr>"
  let ?gb = "fresh_backend\<lparr>diagnostics := [''syntax error'']\<rparr>"
  have rg: "run ?E [OpLoadWarpShader ?G, OpCompileWarpShader ?G] (PerPixelMesh_new, fresh_backend)
      = Inr (?sg, fresh_backend)"
    by (simp add: LoadWarpShader_def CompileWarpShader_def LoadTexturesAndCompile_def
        example_preset_def compileError_examples)
  have rb: "run ?E [OpLoadWarpShader ?B, OpCompileWarpShader ?B] (PerPixelMesh_new, fresh_backend)
      = Inr (?sb, ?gb)"
    by (simp add: LoadWarpShader_def CompileWarpShader_def LoadTexturesAndCompile_def
        example_preset_def compileError_examples fresh_backend_def)
  have g: "map (\<lambda>c. (dc_shader c, dc_sampler c))
        (drawCalls (snd (PerPixelMesh_Draw ?E ?G identity_frame None (?sg, fresh_backend))))
      = [(CustomWarpShader good_source, \<lparr>wrapMode = GL_CLAMP_TO_EDGE, filterMode = GL_LINEAR\<rparr>)]"
    using WarpedBlit_sampler_clamp_linear
      [of ?E "[OpLoadWarpShader ?G, OpCompileWarpShader ?G]" fresh_backend ?G identity_frame None,
       unfolded rg]
    by (auto simp add: fresh_backend_def)
  have b: "map (\<lambda>c. (dc_shader c, dc_sampler c))
        (drawCalls (snd (PerPixelMesh_Draw ?E ?B identity_frame None (?sb, ?gb))))
      = [(DefaultWarpShader, \<lparr>wrapMode = GL_CLAMP_TO_EDGE, filterMode = GL_LINEAR\<rparr>)]"
    using WarpedBlit_sampler_clamp_linear
      [of ?E "[OpLoadWarpShader ?B, OpCompileWarpShader ?B]" fresh_backend ?B identity_frame None,
       unfolded rb]
    by (auto simp add: fresh_backend_def)
  show ?thesis using g b by (simp only: rg rb sum.case)
qed

end
